theory Spec2Isabelle
  imports Complex_Main
begin

section \<open>Values\<close>

text \<open>
  A JavaScript number is a double: a finite value, one of the two infinities, or NaN.
  A finite value is kept as the real it stands for. Comparison follows IEEE 754 (every
  comparison with NaN is false).
\<close>

datatype number = Fin real | PosInf | NegInf | NaN

fun isNaN :: "number \<Rightarrow> bool" where
  "isNaN NaN = True"
| "isNaN _ = False"

fun js_lt :: "number \<Rightarrow> number \<Rightarrow> bool" where
  "js_lt NaN _ = False"
| "js_lt _ NaN = False"
| "js_lt (Fin a) (Fin b) = (a < b)"
| "js_lt (Fin _) PosInf = True"
| "js_lt (Fin _) NegInf = False"
| "js_lt PosInf _ = False"
| "js_lt NegInf NegInf = False"
| "js_lt NegInf _ = True"

definition js_gt :: "number \<Rightarrow> number \<Rightarrow> bool" where
  "js_gt a b = js_lt b a"

text \<open>
  What the platform supplies. \<open>round_sum\<close> is the rounding of double addition: it takes
  the exact sum of two finite doubles to the number that \<open>+\<close> yields, the nearest
  double, or an infinity when the sum is out of range. \<open>path_join\<close> is \<open>join\<close> of
  Node's \<open>path\<close>, \<open>path_name\<close> is \<open>parse(f).name\<close>, the file name without its
  directory and extension, and \<open>process_cwd\<close> is \<open>cwd()\<close>. None of the four is fixed
  here: what is proved holds for every platform.
\<close>

record Platform =
  round_sum :: "real \<Rightarrow> number"
  path_join :: "string \<Rightarrow> string \<Rightarrow> string"
  path_name :: "string \<Rightarrow> string"
  process_cwd :: string

text \<open>
  \<open>a + b\<close> on numbers: IEEE 754 on NaN and the infinities (\<open>Infinity + -Infinity\<close> is
  NaN), and the rounded sum of two finite values.
\<close>

fun js_add :: "Platform \<Rightarrow> number \<Rightarrow> number \<Rightarrow> number" where
  "js_add pf NaN _ = NaN"
| "js_add pf _ NaN = NaN"
| "js_add pf (Fin a) (Fin b) = round_sum pf (a + b)"
| "js_add pf PosInf NegInf = NaN"
| "js_add pf NegInf PosInf = NaN"
| "js_add pf PosInf _ = PosInf"
| "js_add pf _ PosInf = PosInf"
| "js_add pf NegInf _ = NegInf"
| "js_add pf _ NegInf = NegInf"

text \<open>
  Modelled from the spec: the classes \<open>Region\<close>, \<open>Image\<close>, the queries,
  \<open>MatchRequest\<close>, \<open>MatchResult\<close> and \<open>Window\<close> are imported by the screen class
  and are not among the sources. Their fields are those of the data model of the spec; a
  needle carries the \<open>id\<close> that the messages quote.
\<close>

record Region =
  left :: number
  top :: number
  width :: number
  height :: number

text \<open>
  A template literal is kept as the sequence of its parts: the text of
  \<open>Region.toString\<close> and of a number is not fixed by the sources at hand, so an
  interpolated region or number stays a value inside the message.
\<close>

datatype part = Str string | Num number | Reg Region

type_synonym message = "part list"

text \<open>
  What a \<open>throw\<close> or a rejected promise carries: an \<open>Error\<close> object with its message,
  or any other value, given by its string form. \<open>toString\<close> is what \<open>`${e}`\<close> yields.
\<close>

datatype thrown = Error message | Reason message

fun toString :: "thrown \<Rightarrow> message" where
  "toString (Error m) = Str ''Error: '' # m"
| "toString (Reason m) = m"

record Image =
  image_id :: string
  image_width :: number
  image_height :: number
  image_channels :: number
  image_data :: "nat list"

record TextQuery =
  text_id :: string
  text_query :: string

record WindowQuery =
  window_id :: string
  window_title :: string

text \<open>
  A runtime value handed to \<open>find\<close>, \<open>findAll\<close> or \<open>on\<close>: one of the three kinds
  of needle the screen class searches for, or any other value, kept as its
  \<open>JSON.stringify\<close> text.
\<close>

datatype needle = ImageNeedle Image | TextNeedle TextQuery | WindowNeedle WindowQuery
  | OtherValue string

text \<open>
  Objects are compared by reference when they are keys of a \<open>Map\<close>, so an object is
  its address together with its content.
\<close>

datatype FindInput = Obj (ref: nat) (val: needle)

text \<open>
  Modelled from the spec: the type guards \<open>isImage\<close>, \<open>isTextQuery\<close> and
  \<open>isWindowQuery\<close> are imported and not among the sources; each accepts the values of
  its kind and no others.
\<close>

fun isImage :: "FindInput \<Rightarrow> bool" where
  "isImage (Obj _ (ImageNeedle _)) = True"
| "isImage _ = False"

fun isTextQuery :: "FindInput \<Rightarrow> bool" where
  "isTextQuery (Obj _ (TextNeedle _)) = True"
| "isTextQuery _ = False"

fun isWindowQuery :: "FindInput \<Rightarrow> bool" where
  "isWindowQuery (Obj _ (WindowNeedle _)) = True"
| "isWindowQuery _ = False"

fun needle_id :: "FindInput \<Rightarrow> string" where
  "needle_id (Obj _ (ImageNeedle i)) = image_id i"
| "needle_id (Obj _ (TextNeedle q)) = text_id q"
| "needle_id (Obj _ (WindowNeedle q)) = window_id q"
| "needle_id (Obj _ (OtherValue _)) = ''undefined''"

text \<open>
  \<open>JSON.stringify\<close> is only ever applied to a value that failed the three guards; the
  JSON text of an image or a query is not modelled.
\<close>

fun stringify :: "FindInput \<Rightarrow> string" where
  "stringify (Obj _ (OtherValue j)) = j"
| "stringify _ = []"

text \<open>What a screen grab hands back: an image, or something \<open>isImage\<close> rejects.\<close>

datatype grabbed = IsImage Image | NotImage string

record MatchRequest =
  haystack :: grabbed
  request_needle :: FindInput
  request_confidence :: number
  searchMultipleScales :: bool

record MatchResult =
  match_confidence :: number
  location :: Region

record Window =
  windowHandle :: nat

datatype FindResult = RegionResult Region | WindowResult Window

datatype target = MatchTarget MatchResult | WindowTarget Window

record ScreenConfig =
  confidence :: number
  autoHighlight :: bool
  highlightDurationMs :: number
  highlightOpacity :: number
  resourceDirectory :: string

record OptionalSearchParameters =
  p_searchRegion :: "(thrown + Region) option"
  p_confidence :: "number option"
  p_searchMultipleScales :: "bool option"

section \<open>Validation of the search region\<close>

definition validateSearchRegion :: "Platform \<Rightarrow> Region \<Rightarrow> Region \<Rightarrow> thrown + unit" where
  "validateSearchRegion pf search screen =
     (if js_lt (left search) (Fin 0) \<or> js_lt (top search) (Fin 0)
         \<or> js_lt (width search) (Fin 0) \<or> js_lt (height search) (Fin 0)
      then Inl (Error [Str ''Negative values in search region '', Reg search])
      else if isNaN (left search) \<or> isNaN (top search)
         \<or> isNaN (width search) \<or> isNaN (height search)
      then Inl (Error [Str ''NaN values in search region '', Reg search])
      else if js_lt (width search) (Fin 2) \<or> js_lt (height search) (Fin 2)
      then Inl (Error [Str ''Search region '', Reg search,
             Str '' is not large enough. Must be at least two pixels in both width and height.''])
      else if js_gt (js_add pf (left search) (width search)) (width screen)
         \<or> js_gt (js_add pf (top search) (height search)) (height screen)
      then Inl (Error [Str ''Search region '', Reg search,
             Str '' extends beyond screen boundaries ('', Num (width screen), Str ''x'',
             Num (height screen), Str '')''])
      else Inr ())"

section \<open>Providers, callbacks and the state of a screen instance\<close>

text \<open>
  The providers are external: each call takes the state of the outside world and returns
  either a rejection or a value, together with the new world.
\<close>

record 'w ProviderRegistry =
  Screen_screenSize :: "'w \<Rightarrow> (thrown + Region) \<times> 'w"
  Screen_grabScreen :: "'w \<Rightarrow> (thrown + grabbed) \<times> 'w"
  Screen_grabScreenRegion :: "Region \<Rightarrow> 'w \<Rightarrow> (thrown + grabbed) \<times> 'w"
  Screen_highlightScreenRegion ::
    "Region \<Rightarrow> number \<Rightarrow> number \<Rightarrow> 'w \<Rightarrow> (thrown + unit) \<times> 'w"
  ImageFinder_findMatch :: "MatchRequest \<Rightarrow> 'w \<Rightarrow> (thrown + MatchResult) \<times> 'w"
  ImageFinder_findMatches :: "MatchRequest \<Rightarrow> 'w \<Rightarrow> (thrown + MatchResult list) \<times> 'w"
  TextFinder_findMatch :: "MatchRequest \<Rightarrow> 'w \<Rightarrow> (thrown + MatchResult) \<times> 'w"
  TextFinder_findMatches :: "MatchRequest \<Rightarrow> 'w \<Rightarrow> (thrown + MatchResult list) \<times> 'w"
  WindowFinder_findMatch :: "FindInput \<Rightarrow> 'w \<Rightarrow> (thrown + nat) \<times> 'w"
  WindowFinder_findMatches :: "FindInput \<Rightarrow> 'w \<Rightarrow> (thrown + nat list) \<times> 'w"
  ImageWriter_store :: "Image \<Rightarrow> string \<Rightarrow> 'w \<Rightarrow> (thrown + unit) \<times> 'w"

text \<open>
  A hook is a JavaScript function. \<open>find\<close> hands it the match result, or the window,
  as an object: the hook may change the object, and what the code reads from the object
  afterwards is what the hook left there. So a hook is given by what it does with a
  match result and with a window: its effect on the outside world and either the error
  it throws or the object as it leaves it. \<open>cb_id\<close> names the hook in the trace. A
  hook that throws and a hook whose promise rejects are the same \<open>Inl\<close>. A hook does
  not call back into the screen instance: it neither registers hooks nor changes the
  configuration.
\<close>

record 'w FindHookCallback =
  cb_id :: nat
  on_match :: "MatchResult \<Rightarrow> 'w \<Rightarrow> (thrown + MatchResult) \<times> 'w"
  on_window :: "Window \<Rightarrow> 'w \<Rightarrow> (thrown + Window) \<times> 'w"

text \<open>
  The trace records every call made to a provider or to a hook, in order; a hook call
  is entered with the object as it was when the hook was handed it.
\<close>

datatype call =
    ScreenSize
  | GrabScreen
  | GrabScreenRegion Region
  | HighlightScreenRegion Region number number
  | ImageFindMatch MatchRequest
  | ImageFindMatches MatchRequest
  | TextFindMatch MatchRequest
  | TextFindMatches MatchRequest
  | WindowFindMatch FindInput
  | WindowFindMatches FindInput
  | Store Image string
  | Hook nat target

text \<open>
  The state threaded through every operation: the two fields of the instance
  (\<open>config\<close> and the \<open>findHooks\<close> map, keyed by object reference), the outside world,
  the trace, and the highlights that \<open>findAll\<close> started without awaiting them.
  Calls to the log provider change nothing and are left out.
\<close>

record 'w state =
  config :: ScreenConfig
  findHooks :: "nat \<rightharpoonup> 'w FindHookCallback list"
  world :: 'w
  calls :: "call list"
  unawaited :: "Region list"

definition invoke ::
  "call \<Rightarrow> ('w \<Rightarrow> (thrown + 'a) \<times> 'w) \<Rightarrow> 'w state \<Rightarrow> (thrown + 'a) \<times> 'w state" where
  "invoke c f s =
     (case f (world s) of (r, w) \<Rightarrow> (r, s\<lparr>world := w, calls := calls s @ [c]\<rparr>))"

section \<open>Hooks\<close>

definition getHooksForInput :: "FindInput \<Rightarrow> 'w state \<Rightarrow> 'w FindHookCallback list option" where
  "getHooksForInput input s =
     (if isImage input \<or> isTextQuery input then findHooks s (ref input)
      else if isWindowQuery input then findHooks s (ref input)
      else Some [])"

text \<open>\<open>getHooksForInput(needle) || []\<close>: a missing entry reads as no hooks.\<close>

definition possibleHooks :: "FindInput \<Rightarrow> 'w state \<Rightarrow> 'w FindHookCallback list" where
  "possibleHooks input s = (case getHooksForInput input s of None \<Rightarrow> [] | Some hs \<Rightarrow> hs)"

definition on :: "FindInput \<Rightarrow> 'w FindHookCallback \<Rightarrow> 'w state \<Rightarrow> (thrown + unit) \<times> 'w state" where
  "on searchInput callback s =
     (if \<not> isImage searchInput \<and> \<not> isTextQuery searchInput \<and> \<not> isWindowQuery searchInput
      then (Inl (Error [Str ''on requires an Image, a text query or a window query, but received '',
                        Str (stringify searchInput)]), s)
      else
        let existingHooks = (case findHooks s (ref searchInput) of None \<Rightarrow> [] | Some hs \<Rightarrow> hs)
        in (Inr (), s\<lparr>findHooks := (findHooks s)(ref searchInput \<mapsto> existingHooks @ [callback])\<rparr>))"

text \<open>
  One awaited call of a hook on an object \<open>x\<close>, a match result (\<open>run = on_match\<close>,
  \<open>wrap = MatchTarget\<close>) or a window (\<open>run = on_window\<close>, \<open>wrap = WindowTarget\<close>):
  the call is entered in the trace, the hook acts on the world, and the object comes back
  as the hook left it.
\<close>

definition call_hook ::
  "('w FindHookCallback \<Rightarrow> 'a \<Rightarrow> 'w \<Rightarrow> (thrown + 'a) \<times> 'w) \<Rightarrow> ('a \<Rightarrow> target)
     \<Rightarrow> 'w FindHookCallback \<Rightarrow> 'a \<Rightarrow> 'w state \<Rightarrow> (thrown + 'a) \<times> 'w state" where
  "call_hook run wrap hook x s = invoke (Hook (cb_id hook) (wrap x)) (run hook x) s"

text \<open>
  \<open>for (const hook of possibleHooks) { await hook(matchResult); }\<close>: every hook is
  handed the same object, so each sees what the hooks before it left there.
\<close>

fun run_hooks ::
  "('w FindHookCallback \<Rightarrow> 'a \<Rightarrow> 'w \<Rightarrow> (thrown + 'a) \<times> 'w) \<Rightarrow> ('a \<Rightarrow> target)
     \<Rightarrow> 'w FindHookCallback list \<Rightarrow> 'a \<Rightarrow> 'w state \<Rightarrow> (thrown + 'a) \<times> 'w state" where
  "run_hooks run wrap [] x s = (Inr x, s)"
| "run_hooks run wrap (hook # hooks) x s =
     (case call_hook run wrap hook x s of
        (Inl e, s') \<Rightarrow> (Inl e, s')
      | (Inr x', s') \<Rightarrow> run_hooks run wrap hooks x' s')"

text \<open>
  \<open>for (const hook of possibleHooks) { for (const matchResult of matchResults)
  { await hook(matchResult); } }\<close>: the inner loop, then the outer one. The objects of
  the array come back as the hooks left them.
\<close>

fun run_hook_on_all ::
  "('w FindHookCallback \<Rightarrow> 'a \<Rightarrow> 'w \<Rightarrow> (thrown + 'a) \<times> 'w) \<Rightarrow> ('a \<Rightarrow> target)
     \<Rightarrow> 'w FindHookCallback \<Rightarrow> 'a list \<Rightarrow> 'w state \<Rightarrow> (thrown + 'a list) \<times> 'w state" where
  "run_hook_on_all run wrap hook [] s = (Inr [], s)"
| "run_hook_on_all run wrap hook (x # xs) s =
     (case call_hook run wrap hook x s of
        (Inl e, s') \<Rightarrow> (Inl e, s')
      | (Inr x', s') \<Rightarrow>
          (case run_hook_on_all run wrap hook xs s' of
             (Inl e, s'') \<Rightarrow> (Inl e, s'')
           | (Inr xs', s'') \<Rightarrow> (Inr (x' # xs'), s'')))"

fun run_hooks_on_all ::
  "('w FindHookCallback \<Rightarrow> 'a \<Rightarrow> 'w \<Rightarrow> (thrown + 'a) \<times> 'w) \<Rightarrow> ('a \<Rightarrow> target)
     \<Rightarrow> 'w FindHookCallback list \<Rightarrow> 'a list \<Rightarrow> 'w state \<Rightarrow> (thrown + 'a list) \<times> 'w state" where
  "run_hooks_on_all run wrap [] xs s = (Inr xs, s)"
| "run_hooks_on_all run wrap (hook # hooks) xs s =
     (case run_hook_on_all run wrap hook xs s of
        (Inl e, s') \<Rightarrow> (Inl e, s')
      | (Inr xs', s') \<Rightarrow> run_hooks_on_all run wrap hooks xs' s')"

section \<open>Highlight\<close>

text \<open>
  Modelled from the spec: \<open>isRegion\<close> is imported and not among the sources. The
  argument of \<open>highlight\<close> or \<open>captureRegion\<close>, once awaited, is a region or a value
  that \<open>isRegion\<close> rejects, kept as its \<open>JSON.stringify\<close> text.
\<close>

datatype region_arg = IsRegion Region | NotRegion string

definition highlight :: "'w ProviderRegistry \<Rightarrow> thrown + region_arg \<Rightarrow> 'w state \<Rightarrow> (thrown + Region) \<times> 'w state" where
  "highlight P regionToHighlight s =
     (case regionToHighlight of
        Inl e \<Rightarrow> (Inl e, s)
      | Inr (NotRegion j) \<Rightarrow>
          (Inl (Error [Str ''highlight requires an Region, but received '', Str j]), s)
      | Inr (IsRegion highlightRegion) \<Rightarrow>
          (case invoke (HighlightScreenRegion highlightRegion (highlightDurationMs (config s))
                          (highlightOpacity (config s)))
                       (Screen_highlightScreenRegion P highlightRegion
                          (highlightDurationMs (config s)) (highlightOpacity (config s))) s of
             (Inl e, s') \<Rightarrow> (Inl e, s')
           | (Inr _, s') \<Rightarrow> (Inr highlightRegion, s')))"

section \<open>find and findAll\<close>

record FindParameters =
  minMatch :: number
  screenSize :: Region
  searchRegion :: Region
  screenImage :: grabbed

text \<open>
  \<open>params?.confidence ?? this.config.confidence\<close>, then the screen size, then
  \<open>(await params?.searchRegion) ?? screenSize\<close>, then the grab of that region.
\<close>

definition getFindParameters ::
  "'w ProviderRegistry \<Rightarrow> OptionalSearchParameters option \<Rightarrow> 'w state
     \<Rightarrow> (thrown + FindParameters) \<times> 'w state" where
  "getFindParameters P params s =
     (let minMatch' = (case params of None \<Rightarrow> confidence (config s)
                      | Some p \<Rightarrow> (case p_confidence p of None \<Rightarrow> confidence (config s)
                                   | Some c \<Rightarrow> c))
      in case invoke ScreenSize (Screen_screenSize P) s of
           (Inl e, s1) \<Rightarrow> (Inl e, s1)
         | (Inr screenSize', s1) \<Rightarrow>
             (case (case params of None \<Rightarrow> Inr screenSize'
                    | Some p \<Rightarrow> (case p_searchRegion p of None \<Rightarrow> Inr screenSize'
                                 | Some pending \<Rightarrow> pending)) of
                Inl e \<Rightarrow> (Inl e, s1)
              | Inr searchRegion' \<Rightarrow>
                  (case invoke (GrabScreenRegion searchRegion')
                               (Screen_grabScreenRegion P searchRegion') s1 of
                     (Inl e, s2) \<Rightarrow> (Inl e, s2)
                   | (Inr screenImage', s2) \<Rightarrow>
                       (Inr \<lparr>minMatch = minMatch', screenSize = screenSize',
                             searchRegion = searchRegion', screenImage = screenImage'\<rparr>, s2))))"

text \<open>
  Modelled from the spec: \<open>createMatchRequest\<close> (match-request.class) is not among the
  sources. The spec gives the request as haystack, needle, confidence and the
  scale-search flag, built fresh for each search; the flag defaults to true, as in the
  older revision of \<open>getFindParameters\<close>.
\<close>

definition createMatchRequest ::
  "FindInput \<Rightarrow> Region \<Rightarrow> number \<Rightarrow> grabbed \<Rightarrow> OptionalSearchParameters option \<Rightarrow> MatchRequest" where
  "createMatchRequest needle' searchRegion' minMatch' screenImage' params =
     \<lparr>haystack = screenImage', request_needle = needle', request_confidence = minMatch',
      searchMultipleScales = (case params of None \<Rightarrow> True
                              | Some p \<Rightarrow> (case p_searchMultipleScales p of None \<Rightarrow> True
                                           | Some b \<Rightarrow> b))\<rparr>"

text \<open>
  Modelled from the spec: \<open>getMatchResult\<close> and \<open>getMatchResults\<close> (match-result.class)
  are not among the sources. The spec has them dispatch the request to the finder
  provider of the needle's kind: the image finder for an image, the text finder for a
  text query. The call is entered in the trace.
\<close>

definition getMatchResult ::
  "'w ProviderRegistry \<Rightarrow> MatchRequest \<Rightarrow> 'w state \<Rightarrow> (thrown + MatchResult) \<times> 'w state" where
  "getMatchResult P matchRequest s =
     (if isImage (request_needle matchRequest)
      then invoke (ImageFindMatch matchRequest) (ImageFinder_findMatch P matchRequest) s
      else invoke (TextFindMatch matchRequest) (TextFinder_findMatch P matchRequest) s)"

text \<open>
  Modelled from the spec: the multi-match dispatch, to \<open>findMatches\<close> of the same
  finder.
\<close>

definition getMatchResults ::
  "'w ProviderRegistry \<Rightarrow> MatchRequest \<Rightarrow> 'w state \<Rightarrow> (thrown + MatchResult list) \<times> 'w state" where
  "getMatchResults P matchRequest s =
     (if isImage (request_needle matchRequest)
      then invoke (ImageFindMatches matchRequest) (ImageFinder_findMatches P matchRequest) s
      else invoke (TextFindMatches matchRequest) (TextFinder_findMatches P matchRequest) s)"

text \<open>
  \<open>new Region(searchRegion.left + location.left, searchRegion.top + location.top, location.width, location.height)\<close>,
  read from the match result when the hooks have run.
\<close>

definition resultRegion :: "Platform \<Rightarrow> Region \<Rightarrow> MatchResult \<Rightarrow> Region" where
  "resultRegion pf searchRegion' matchResult =
     \<lparr>left = js_add pf (left searchRegion') (left (location matchResult)),
      top = js_add pf (top searchRegion') (top (location matchResult)),
      width = width (location matchResult),
      height = height (location matchResult)\<rparr>"

text \<open>\<open>new Error(`Searching for ${needle.id} failed. Reason: '${e}'`)\<close>\<close>

definition searchFailed :: "FindInput \<Rightarrow> thrown \<Rightarrow> thrown" where
  "searchFailed needle e =
     Error ([Str ''Searching for '', Str (needle_id needle), Str '' failed. Reason: '',
             Str [CHR 0x27]] @ toString e @ [Str [CHR 0x27]])"

text \<open>
  What the \<open>try\<close> block of \<open>find\<close> returns: a value, or the promise of
  \<open>this.highlight(resultRegion)\<close>, which is returned without being awaited, so that
  its rejection is not seen by the \<open>catch\<close>.
\<close>

datatype returned = Value FindResult | Promise Region

definition find_try ::
  "Platform \<Rightarrow> 'w ProviderRegistry \<Rightarrow> FindInput \<Rightarrow> OptionalSearchParameters option \<Rightarrow> 'w state
     \<Rightarrow> (thrown + returned) \<times> 'w state" where
  "find_try pf P needle params s =
     (if isWindowQuery needle then
        (case invoke (WindowFindMatch needle) (WindowFinder_findMatch P needle) s of
           (Inl e, s1) \<Rightarrow> (Inl e, s1)
         | (Inr handle, s1) \<Rightarrow>
             (case run_hooks on_window WindowTarget (possibleHooks needle s1)
                     \<lparr>windowHandle = handle\<rparr> s1 of
                (Inl e, s2) \<Rightarrow> (Inl e, s2)
              | (Inr window, s2) \<Rightarrow> (Inr (Value (WindowResult window)), s2)))
      else
        (case getFindParameters P params s of
           (Inl e, s1) \<Rightarrow> (Inl e, s1)
         | (Inr fp, s1) \<Rightarrow>
             (let matchRequest = createMatchRequest needle (searchRegion fp) (minMatch fp)
                                   (screenImage fp) params
              in case validateSearchRegion pf (searchRegion fp) (screenSize fp) of
                   Inl e \<Rightarrow> (Inl e, s1)
                 | Inr _ \<Rightarrow>
                     (case getMatchResult P matchRequest s1 of
                        (Inl e, s2) \<Rightarrow> (Inl e, s2)
                      | (Inr found, s2) \<Rightarrow>
                          (case run_hooks on_match MatchTarget (possibleHooks needle s2) found s2 of
                             (Inl e, s3) \<Rightarrow> (Inl e, s3)
                           | (Inr matchResult, s3) \<Rightarrow>
                               (if autoHighlight (config s3)
                                then (Inr (Promise (resultRegion pf (searchRegion fp) matchResult)), s3)
                                else (Inr (Value (RegionResult
                                        (resultRegion pf (searchRegion fp) matchResult))), s3)))))))"

definition find ::
  "Platform \<Rightarrow> 'w ProviderRegistry \<Rightarrow> thrown + FindInput \<Rightarrow> OptionalSearchParameters option
     \<Rightarrow> 'w state \<Rightarrow> (thrown + FindResult) \<times> 'w state" where
  "find pf P searchInput params s =
     (case searchInput of
        Inl e \<Rightarrow> (Inl e, s)
      | Inr needle \<Rightarrow>
          (if \<not> isImage needle \<and> \<not> isTextQuery needle \<and> \<not> isWindowQuery needle
           then (Inl (Error [Str ''find requires an Image, a text query or a window query, but received '',
                             Str (stringify needle)]), s)
           else
             (case find_try pf P needle params s of
                (Inl e, s') \<Rightarrow> (Inl (searchFailed needle e), s')
              | (Inr (Value v), s') \<Rightarrow> (Inr v, s')
              | (Inr (Promise region), s') \<Rightarrow>
                  (case highlight P (Inr (IsRegion region)) s' of
                     (Inl e, s'') \<Rightarrow> (Inl e, s'')
                   | (Inr r, s'') \<Rightarrow> (Inr (RegionResult r), s'')))))"

definition findAll_try ::
  "Platform \<Rightarrow> 'w ProviderRegistry \<Rightarrow> FindInput \<Rightarrow> OptionalSearchParameters option \<Rightarrow> 'w state
     \<Rightarrow> (thrown + FindResult list) \<times> 'w state" where
  "findAll_try pf P needle params s =
     (if isWindowQuery needle then
        (case invoke (WindowFindMatches needle) (WindowFinder_findMatches P needle) s of
           (Inl e, s1) \<Rightarrow> (Inl e, s1)
         | (Inr matches, s1) \<Rightarrow>
             (case run_hooks_on_all on_window WindowTarget (possibleHooks needle s1)
                     (map (\<lambda>handle. \<lparr>windowHandle = handle\<rparr>) matches) s1 of
                (Inl e, s2) \<Rightarrow> (Inl e, s2)
              | (Inr windows, s2) \<Rightarrow> (Inr (map WindowResult windows), s2)))
      else
        (case getFindParameters P params s of
           (Inl e, s1) \<Rightarrow> (Inl e, s1)
         | (Inr fp, s1) \<Rightarrow>
             (let matchRequest = createMatchRequest needle (searchRegion fp) (minMatch fp)
                                   (screenImage fp) params
              in case validateSearchRegion pf (searchRegion fp) (screenSize fp) of
                   Inl e \<Rightarrow> (Inl e, s1)
                 | Inr _ \<Rightarrow>
                     (case getMatchResults P matchRequest s1 of
                        (Inl e, s2) \<Rightarrow> (Inl e, s2)
                      | (Inr found, s2) \<Rightarrow>
                          (case run_hooks_on_all on_match MatchTarget (possibleHooks needle s2)
                                  found s2 of
                             (Inl e, s3) \<Rightarrow> (Inl e, s3)
                           | (Inr matchResults, s3) \<Rightarrow>
                               (let resultRegions = map (resultRegion pf (searchRegion fp)) matchResults
                                in if autoHighlight (config s3)
                                   then (Inr (map RegionResult resultRegions),
                                         s3\<lparr>unawaited := unawaited s3 @ resultRegions\<rparr>)
                                   else (Inr (map RegionResult resultRegions), s3)))))))"

definition findAll ::
  "Platform \<Rightarrow> 'w ProviderRegistry \<Rightarrow> thrown + FindInput \<Rightarrow> OptionalSearchParameters option
     \<Rightarrow> 'w state \<Rightarrow> (thrown + FindResult list) \<times> 'w state" where
  "findAll pf P searchInput params s =
     (case searchInput of
        Inl e \<Rightarrow> (Inl e, s)
      | Inr needle \<Rightarrow>
          (if \<not> isImage needle \<and> \<not> isTextQuery needle \<and> \<not> isWindowQuery needle
           then (Inl (Error [Str ''findAll requires an Image, a text query or a window query, but received '',
                             Str (stringify needle)]), s)
           else
             (case findAll_try pf P needle params s of
                (Inl e, s') \<Rightarrow> (Inl (searchFailed needle e), s')
              | (Inr rs, s') \<Rightarrow> (Inr rs, s'))))"

section \<open>capture and captureRegion\<close>

text \<open>
  Modelled from the spec: the \<open>FileType\<close> enum is not among the sources; the tests
  name its members \<open>PNG\<close> and \<open>JPG\<close>, and the spec puts the format after a dot at
  the end of the path.
\<close>

datatype FileType = PNG | JPG

fun extension :: "FileType \<Rightarrow> string" where
  "extension PNG = ''png''"
| "extension JPG = ''jpg''"

record OutputParameters =
  path :: string
  postfix :: string
  prefix :: string
  type :: FileType

text \<open>
  Modelled from the spec: \<open>generateOutputPath\<close> (generate-output-path.function) is not
  among the sources. The spec gives the path as
  \<open>{directory}/{prefix}{basename}{postfix}.{extension}\<close> and has it equal
  \<open>join(targetDirectory, fileName)\<close> when there is neither prefix nor postfix; the unit
  tests of the screen class have \<open>capture("foobar.png")\<close> return
  \<open>join(cwd(), "foobar.png")\<close>. So the base name is the file name without its
  extension, \<open>parse(fileName).name\<close>, and the directory and the file are put together
  by \<open>join\<close>, both as the platform has them.
\<close>

definition generateOutputPath :: "Platform \<Rightarrow> string \<Rightarrow> OutputParameters \<Rightarrow> string" where
  "generateOutputPath pf fileName params =
     path_join pf (path params)
       (prefix params @ path_name pf fileName @ postfix params @ ''.'' @ extension (type params))"

definition saveImage ::
  "Platform \<Rightarrow> 'w ProviderRegistry \<Rightarrow> Image \<Rightarrow> string \<Rightarrow> FileType \<Rightarrow> string \<Rightarrow> string \<Rightarrow> string
     \<Rightarrow> 'w state \<Rightarrow> (thrown + string) \<times> 'w state" where
  "saveImage pf P image' fileName fileFormat filePath fileNamePrefix fileNamePostfix s =
     (let outputPath = generateOutputPath pf fileName
            \<lparr>path = filePath, postfix = fileNamePostfix, prefix = fileNamePrefix,
             type = fileFormat\<rparr>
      in case invoke (Store image' outputPath) (ImageWriter_store P image' outputPath) s of
           (Inl e, s') \<Rightarrow> (Inl e, s')
         | (Inr _, s') \<Rightarrow> (Inr outputPath, s'))"

text \<open>
  The optional arguments take their defaults when absent: \<open>FileType.PNG\<close>, the working
  directory \<open>cwd()\<close> of the process, and the empty prefix and postfix.
\<close>

fun withDefault :: "'a \<Rightarrow> 'a option \<Rightarrow> 'a" where
  "withDefault d None = d"
| "withDefault d (Some x) = x"

definition capture ::
  "Platform \<Rightarrow> 'w ProviderRegistry \<Rightarrow> string \<Rightarrow> FileType option \<Rightarrow> string option
     \<Rightarrow> string option \<Rightarrow> string option \<Rightarrow> 'w state \<Rightarrow> (thrown + string) \<times> 'w state" where
  "capture pf P fileName fileFormat filePath fileNamePrefix fileNamePostfix s =
     (case invoke GrabScreen (Screen_grabScreen P) s of
        (Inl e, s1) \<Rightarrow> (Inl e, s1)
      | (Inr (NotImage j), s1) \<Rightarrow>
          (Inl (Error [Str ''capture requires an Image, but received '', Str j]), s1)
      | (Inr (IsImage currentScreen), s1) \<Rightarrow>
          saveImage pf P currentScreen fileName
            (withDefault PNG fileFormat) (withDefault (process_cwd pf) filePath)
            (withDefault [] fileNamePrefix) (withDefault [] fileNamePostfix) s1)"

definition captureRegion ::
  "Platform \<Rightarrow> 'w ProviderRegistry \<Rightarrow> string \<Rightarrow> thrown + region_arg \<Rightarrow> FileType option
     \<Rightarrow> string option \<Rightarrow> string option \<Rightarrow> string option \<Rightarrow> 'w state
     \<Rightarrow> (thrown + string) \<times> 'w state" where
  "captureRegion pf P fileName regionToCapture fileFormat filePath fileNamePrefix fileNamePostfix s =
     (case regionToCapture of
        Inl e \<Rightarrow> (Inl e, s)
      | Inr (NotRegion j) \<Rightarrow>
          (Inl (Error [Str ''captureRegion requires an Region, but received '', Str j]), s)
      | Inr (IsRegion targetRegion) \<Rightarrow>
          (case invoke (GrabScreenRegion targetRegion) (Screen_grabScreenRegion P targetRegion) s of
             (Inl e, s1) \<Rightarrow> (Inl e, s1)
           | (Inr (NotImage j), s1) \<Rightarrow>
               (Inl (Error [Str ''captureRegion requires an Image, but received '', Str j]), s1)
           | (Inr (IsImage regionImage), s1) \<Rightarrow>
               saveImage pf P regionImage fileName
                 (withDefault PNG fileFormat) (withDefault (process_cwd pf) filePath)
                 (withDefault [] fileNamePrefix) (withDefault [] fileNamePostfix) s1))"

section \<open>Reading the trace\<close>

fun isFinderCall :: "call \<Rightarrow> bool" where
  "isFinderCall (ImageFindMatch _) = True"
| "isFinderCall (ImageFindMatches _) = True"
| "isFinderCall (TextFindMatch _) = True"
| "isFinderCall (TextFindMatches _) = True"
| "isFinderCall (WindowFindMatch _) = True"
| "isFinderCall (WindowFindMatches _) = True"
| "isFinderCall _ = False"

fun isHookCall :: "call \<Rightarrow> bool" where
  "isHookCall (Hook _ _) = True"
| "isHookCall _ = False"

fun isStoreCall :: "call \<Rightarrow> bool" where
  "isStoreCall (Store _ _) = True"
| "isStoreCall _ = False"

text \<open>The calls an operation added to the trace, given the states before and after it.\<close>

definition new_calls :: "'w state \<Rightarrow> 'w state \<Rightarrow> call list" where
  "new_calls s s' = drop (length (calls s)) (calls s')"

text \<open>The hooks that were called, by their names, in the order of the calls.\<close>

fun calledHooks :: "call list \<Rightarrow> nat list" where
  "calledHooks [] = []"
| "calledHooks (Hook i t # cs) = i # calledHooks cs"
| "calledHooks (c # cs) = calledHooks cs"

text \<open>
  What a hook that resolves leaves behind, the object and the world; the step of the
  loop over the hooks when none of them throws.
\<close>

definition hook_step ::
  "('w FindHookCallback \<Rightarrow> 'a \<Rightarrow> 'w \<Rightarrow> (thrown + 'a) \<times> 'w) \<Rightarrow> 'w FindHookCallback
     \<Rightarrow> 'a \<times> 'w \<Rightarrow> 'a \<times> 'w" where
  "hook_step run hook xw =
     (case run hook (fst xw) (snd xw) of
        (Inl e, w') \<Rightarrow> (fst xw, w')
      | (Inr x', w') \<Rightarrow> (x', w'))"

text \<open>
  A hook that leaves the object it is handed as it found it, and a hook that leaves at
  least the location of a match result as it found it.
\<close>

definition leavesAlone ::
  "('w FindHookCallback \<Rightarrow> 'a \<Rightarrow> 'w \<Rightarrow> (thrown + 'a) \<times> 'w) \<Rightarrow> 'w FindHookCallback \<Rightarrow> bool" where
  "leavesAlone run hook \<longleftrightarrow> (\<forall>x w x' w'. run hook x w = (Inr x', w') \<longrightarrow> x' = x)"

definition keepsLocation :: "'w FindHookCallback \<Rightarrow> bool" where
  "keepsLocation hook \<longleftrightarrow>
     (\<forall>m w m' w'. on_match hook m w = (Inr m', w') \<longrightarrow> location m' = location m)"

text \<open>The registrations \<open>on(needle, cb1); ...; on(needle, cbk)\<close>, one after the other.\<close>

fun on_all :: "FindInput \<Rightarrow> 'w FindHookCallback list \<Rightarrow> 'w state \<Rightarrow> 'w state" where
  "on_all searchInput [] s = s"
| "on_all searchInput (callback # callbacks) s =
     on_all searchInput callbacks (snd (on searchInput callback s))"

text \<open>
  The search region as the spec rules it out: a negative or NaN component, a width or
  height under two, or an extent beyond the screen, \<open>left + width > screen.width\<close> or
  \<open>top + height > screen.height\<close> with the sums as the platform computes them.
\<close>

definition invalidSearchRegion :: "Platform \<Rightarrow> Region \<Rightarrow> Region \<Rightarrow> bool" where
  "invalidSearchRegion pf search screen \<longleftrightarrow>
     js_lt (left search) (Fin 0) \<or> js_lt (top search) (Fin 0)
     \<or> js_lt (width search) (Fin 0) \<or> js_lt (height search) (Fin 0)
     \<or> isNaN (left search) \<or> isNaN (top search) \<or> isNaN (width search) \<or> isNaN (height search)
     \<or> js_lt (width search) (Fin 2) \<or> js_lt (height search) (Fin 2)
     \<or> js_gt (js_add pf (left search) (width search)) (width screen)
     \<or> js_gt (js_add pf (top search) (height search)) (height screen)"

section \<open>A test double, after the unit tests of the screen class\<close>

text \<open>
  The platform of the double. Its sums are exact, as double addition is on the whole
  numbers of the tests, all far below \<open>2^53\<close>. Its \<open>join\<close> is Node's on the
  directories of the tests: the file name alone for the directory \<open>.\<close> or \<open>./\<close>, and
  otherwise the directory, a slash and the file name, which is Node's result for a
  directory such as \<open>/home/user\<close>, without a trailing slash or dot segments. Its
  \<open>parse(f).name\<close> is the part of a file name before its last dot, the whole name when
  there is no dot or only a leading one, as Node has it for a name without a directory.
\<close>

definition mockName :: "string \<Rightarrow> string" where
  "mockName f =
     (let base = rev (drop 1 (dropWhile (\<lambda>c. c \<noteq> CHR ''.'') (rev f)))
      in if base = [] then f else base)"

definition mockPlatform :: Platform where
  "mockPlatform = \<lparr>round_sum = Fin,
     path_join = (\<lambda>directory file. if directory = ''.'' \<or> directory = ''./'' then file
                                   else directory @ ''/'' @ file),
     path_name = mockName, process_cwd = ''/home/user''\<rparr>"

text \<open>
  A platform that differs from the double in one sum only: a sum between 1000 and
  \<open>1000 + 10^-13\<close> is rounded to 1000, as double addition does.
\<close>

definition roundingPlatform :: Platform where
  "roundingPlatform =
     mockPlatform\<lparr>round_sum := (\<lambda>x. if 1000 < x \<and> x < 1000 + 1 / 10 ^ 13 then Fin 1000 else Fin x)\<rparr>"

text \<open>
  The world of the double is the list of the hooks that have run, by their numbers; the
  image writer leaves a 0 there for every image it stores. The screen is 1000 by 1000,
  every grab returns a 1000 by 1000 image, highlighting succeeds, and each finder answers
  with the given match results.
\<close>

definition mockScreen :: Region where
  "mockScreen = \<lparr>left = Fin 0, top = Fin 0, width = Fin 1000, height = Fin 1000\<rparr>"

definition mockGrab :: Image where
  "mockGrab = \<lparr>image_id = ''screen'', image_width = Fin 1000, image_height = Fin 1000,
     image_channels = Fin 3, image_data = []\<rparr>"

definition mockRegistry :: "MatchResult list \<Rightarrow> (nat list) ProviderRegistry" where
  "mockRegistry results =
     \<lparr>Screen_screenSize = (\<lambda>w. (Inr mockScreen, w)),
      Screen_grabScreen = (\<lambda>w. (Inr (IsImage mockGrab), w)),
      Screen_grabScreenRegion = (\<lambda>r w. (Inr (IsImage mockGrab), w)),
      Screen_highlightScreenRegion = (\<lambda>r d opacity w. (Inr (), w)),
      ImageFinder_findMatch = (\<lambda>req w. (case results of [] \<Rightarrow> Inl (Reason [Str ''Search failed.''])
                                           | m # _ \<Rightarrow> Inr m, w)),
      ImageFinder_findMatches = (\<lambda>req w. (Inr results, w)),
      TextFinder_findMatch = (\<lambda>req w. (case results of [] \<Rightarrow> Inl (Reason [Str ''Search failed.''])
                                           | m # _ \<Rightarrow> Inr m, w)),
      TextFinder_findMatches = (\<lambda>req w. (Inr results, w)),
      WindowFinder_findMatch = (\<lambda>q w. (Inr 123, w)),
      WindowFinder_findMatches = (\<lambda>q w. (Inr [123, 124], w)),
      ImageWriter_store = (\<lambda>i p w. (Inr (), w @ [0]))\<rparr>"

definition needleImage :: Image where
  "needleImage = \<lparr>image_id = ''image'', image_width = Fin 100, image_height = Fin 100,
     image_channels = Fin 3, image_data = []\<rparr>"

definition mockNeedle :: FindInput where
  "mockNeedle = Obj 1 (ImageNeedle needleImage)"

definition mockTwin :: FindInput where
  "mockTwin = Obj 2 (ImageNeedle needleImage)"

definition mockHook :: "nat \<Rightarrow> (nat list) FindHookCallback" where
  "mockHook k = \<lparr>cb_id = k, on_match = (\<lambda>m w. (Inr m, w @ [k])),
     on_window = (\<lambda>x w. (Inr x, w @ [k]))\<rparr>"

definition failingHook :: "nat \<Rightarrow> (nat list) FindHookCallback" where
  "failingHook k = \<lparr>cb_id = k, on_match = (\<lambda>m w. (Inl (Error [Str ''hook failed'']), w)),
     on_window = (\<lambda>x w. (Inl (Error [Str ''hook failed'']), w))\<rparr>"

text \<open>A hook that overwrites the location of the match result it is handed.\<close>

definition relocatingHook :: "nat \<Rightarrow> Region \<Rightarrow> (nat list) FindHookCallback" where
  "relocatingHook k r = \<lparr>cb_id = k, on_match = (\<lambda>m w. (Inr (m\<lparr>location := r\<rparr>), w @ [k])),
     on_window = (\<lambda>x w. (Inr x, w @ [k]))\<rparr>"

text \<open>The instance as constructed: the default configuration and no hooks.\<close>

definition defaultConfig :: ScreenConfig where
  "defaultConfig = \<lparr>confidence = Fin 0.99, autoHighlight = False, highlightDurationMs = Fin 500,
     highlightOpacity = Fin 0.25, resourceDirectory = ''.''\<rparr>"

definition initialState :: "(nat list) state" where
  "initialState = \<lparr>config = defaultConfig, findHooks = Map.empty, world = [], calls = [],
     unawaited = []\<rparr>"

definition region :: "real \<Rightarrow> real \<Rightarrow> real \<Rightarrow> real \<Rightarrow> Region" where
  "region l t w h = \<lparr>left = Fin l, top = Fin t, width = Fin w, height = Fin h\<rparr>"

definition searchIn :: "Region \<Rightarrow> OptionalSearchParameters option" where
  "searchIn r = Some \<lparr>p_searchRegion = Some (Inr r), p_confidence = None,
     p_searchMultipleScales = None\<rparr>"

definition matchAt :: "Region \<Rightarrow> MatchResult" where
  "matchAt r = \<lparr>match_confidence = Fin 0.99, location = r\<rparr>"

text \<open>A screen provider whose highlight is rejected, and an instance with auto-highlight on.\<close>

definition highlightFails :: "(nat list) ProviderRegistry \<Rightarrow> (nat list) ProviderRegistry" where
  "highlightFails P =
     P\<lparr>Screen_highlightScreenRegion := (\<lambda>r d opacity w. (Inl (Reason [Str ''Highlight failed.'']), w))\<rparr>"

definition autoHighlighting :: "'w state \<Rightarrow> 'w state" where
  "autoHighlighting s = s\<lparr>config := (config s)\<lparr>autoHighlight := True\<rparr>\<rparr>"

section \<open>Properties\<close>

subsection \<open>What each step leaves alone\<close>

lemma invoke_fields:
  "invoke c f s = (r, s') \<Longrightarrow>
     calls s' = calls s @ [c] \<and> config s' = config s \<and> findHooks s' = findHooks s
     \<and> unawaited s' = unawaited s"
  by (auto simp: invoke_def split: prod.splits)

lemma call_hook_fields:
  "call_hook run wrap h x s = (r, s') \<Longrightarrow>
     calls s' = calls s @ [Hook (cb_id h) (wrap x)] \<and> config s' = config s
     \<and> findHooks s' = findHooks s \<and> unawaited s' = unawaited s"
  unfolding call_hook_def by (rule invoke_fields)

lemma getFindParameters_ok:
  "getFindParameters P params s = (Inr fp, s1) \<Longrightarrow>
     calls s1 = calls s @ [ScreenSize, GrabScreenRegion (searchRegion fp)]
     \<and> config s1 = config s \<and> findHooks s1 = findHooks s \<and> unawaited s1 = unawaited s"
  by (auto simp: getFindParameters_def Let_def split: prod.splits sum.splits option.splits
      dest!: invoke_fields)

lemma getFindParameters_calls:
  "getFindParameters P params s = (y, s1) \<Longrightarrow>
     (\<exists>pre. calls s1 = calls s @ pre \<and> filter isHookCall pre = [])
     \<and> config s1 = config s \<and> findHooks s1 = findHooks s"
  by (auto simp: getFindParameters_def Let_def split: prod.splits sum.splits option.splits
      dest!: invoke_fields)

lemma getFindParameters_no_finder:
  "getFindParameters P params s = (r, s1) \<Longrightarrow> filter isFinderCall (new_calls s s1) = []"
  by (auto simp: getFindParameters_def new_calls_def Let_def split: prod.splits sum.splits option.splits
      dest!: invoke_fields)

lemma getMatchResult_fields:
  "getMatchResult P req s = (r, s') \<Longrightarrow>
     (calls s' = calls s @ [ImageFindMatch req] \<or> calls s' = calls s @ [TextFindMatch req])
     \<and> config s' = config s \<and> findHooks s' = findHooks s \<and> unawaited s' = unawaited s"
  by (auto simp: getMatchResult_def split: if_splits dest!: invoke_fields)

lemma getMatchResults_fields:
  "getMatchResults P req s = (r, s') \<Longrightarrow>
     (calls s' = calls s @ [ImageFindMatches req] \<or> calls s' = calls s @ [TextFindMatches req])
     \<and> config s' = config s \<and> findHooks s' = findHooks s \<and> unawaited s' = unawaited s"
  by (auto simp: getMatchResults_def split: if_splits dest!: invoke_fields)

lemma highlight_fields:
  "highlight P (Inr (IsRegion r)) s = (x, s') \<Longrightarrow>
     calls s' = calls s @ [HighlightScreenRegion r (highlightDurationMs (config s))
                             (highlightOpacity (config s))]
     \<and> config s' = config s \<and> findHooks s' = findHooks s \<and> unawaited s' = unawaited s"
  by (auto simp: highlight_def split: prod.splits sum.splits dest!: invoke_fields)


lemma validate_iff_invalid:
  "(\<exists>e. validateSearchRegion pf search screen = Inl e) \<longleftrightarrow> invalidSearchRegion pf search screen"
  by (auto simp: validateSearchRegion_def invalidSearchRegion_def)

subsection \<open>Reading hook calls off a trace\<close>

lemma calledHooks_append: "calledHooks (xs @ ys) = calledHooks xs @ calledHooks ys"
  by (induction xs rule: calledHooks.induct) simp_all

lemma calledHooks_none: "filter isHookCall xs = [] \<Longrightarrow> calledHooks xs = []"
  by (induction xs rule: calledHooks.induct) simp_all

lemma length_calledHooks: "length (calledHooks xs) = length (filter isHookCall xs)"
  by (induction xs rule: calledHooks.induct) simp_all

lemma calledHooks_hooks: "calledHooks (map (\<lambda>h. Hook (cb_id h) t) hs) = map cb_id hs"
  by (induction hs) simp_all

lemma filter_hook_hooks:
  "filter isHookCall (map (\<lambda>h. Hook (cb_id h) t) hs) = map (\<lambda>h. Hook (cb_id h) t) hs"
  by (induction hs) auto

lemma filter_hook_concat:
  "filter isHookCall (concat (map (\<lambda>h. map (Hook (cb_id h)) ts) hs))
     = concat (map (\<lambda>h. map (Hook (cb_id h)) ts) hs)"
  by (induction hs) (auto simp: filter_id_conv)

lemma length_concat_replicate:
  "length (concat (map (\<lambda>h. replicate k (cb_id h)) hs)) = length hs * k"
  by (induction hs) auto

subsection \<open>The hook loops\<close>

lemma run_hooks_ok:
  "run_hooks run wrap hs x s = (Inr x', s') \<Longrightarrow>
     \<exists>tr. calls s' = calls s @ tr \<and> filter isHookCall tr = tr
       \<and> calledHooks tr = map cb_id hs \<and> config s' = config s
       \<and> findHooks s' = findHooks s \<and> unawaited s' = unawaited s"
proof (induction hs arbitrary: x s)
  case Nil
  then show ?case by simp
next
  case (Cons h hs)
  from Cons.prems obtain y s1 where
    a: "call_hook run wrap h x s = (Inr y, s1)" and b: "run_hooks run wrap hs y s1 = (Inr x', s')"
    by (auto split: prod.splits sum.splits)
  from Cons.IH [OF b] obtain tr where
    tr: "calls s' = calls s1 @ tr" "filter isHookCall tr = tr" "calledHooks tr = map cb_id hs"
    and f: "config s' = config s1" "findHooks s' = findHooks s1" "unawaited s' = unawaited s1"
    by blast
  from call_hook_fields [OF a] tr f
  have "calls s' = calls s @ (Hook (cb_id h) (wrap x) # tr)
        \<and> filter isHookCall (Hook (cb_id h) (wrap x) # tr) = Hook (cb_id h) (wrap x) # tr
        \<and> calledHooks (Hook (cb_id h) (wrap x) # tr) = map cb_id (h # hs)
        \<and> config s' = config s \<and> findHooks s' = findHooks s \<and> unawaited s' = unawaited s"
    by simp
  then show ?case by (rule exI)
qed


lemma run_hooks_alone:
  "\<forall>h \<in> set hs. leavesAlone run h \<Longrightarrow> run_hooks run wrap hs x s = (Inr x', s') \<Longrightarrow>
     x' = x \<and> calls s' = calls s @ map (\<lambda>h. Hook (cb_id h) (wrap x)) hs
     \<and> world s' = fold (\<lambda>h w. snd (run h x w)) hs (world s)"
proof (induction hs arbitrary: s)
  case Nil
  then show ?case by simp
next
  case (Cons h hs)
  from Cons.prems(2) obtain y s1 where
    a: "call_hook run wrap h x s = (Inr y, s1)" and b: "run_hooks run wrap hs y s1 = (Inr x', s')"
    by (auto split: prod.splits sum.splits)
  from a have r: "run h x (world s) = (Inr y, world s1)"
    by (auto simp: call_hook_def invoke_def split: prod.splits)
  with Cons.prems(1) have y: "y = x" by (auto simp: leavesAlone_def)
  from Cons.prems(1) have "\<forall>h \<in> set hs. leavesAlone run h" by simp
  from Cons.IH [OF this b [unfolded y]] call_hook_fields [OF a] r show ?case by simp
qed

lemma run_hooks_abort:
  "run_hooks run wrap before x s = (Inr x', s1) \<Longrightarrow> call_hook run wrap hook x' s1 = (Inl e, s2) \<Longrightarrow>
     run_hooks run wrap (before @ hook # after) x s = (Inl e, s2)"
proof (induction before arbitrary: x s)
  case Nil
  then show ?case by simp
next
  case (Cons h hs)
  then show ?case by (auto split: prod.splits sum.splits)
qed

lemma run_hooks_world:
  "run_hooks run wrap hs x s = (Inr x', s') \<Longrightarrow>
     (x', world s') = fold (hook_step run) hs (x, world s)"
proof (induction hs arbitrary: x s)
  case Nil
  then show ?case by simp
next
  case (Cons h hs)
  from Cons.prems obtain y s1 where
    a: "call_hook run wrap h x s = (Inr y, s1)" and b: "run_hooks run wrap hs y s1 = (Inr x', s')"
    by (auto split: prod.splits sum.splits)
  from a have "hook_step run h (x, world s) = (y, world s1)"
    by (auto simp: hook_step_def call_hook_def invoke_def split: prod.splits)
  with Cons.IH [OF b] show ?case by simp
qed

lemma run_hooks_location:
  "\<forall>h \<in> set hs. keepsLocation h \<Longrightarrow> run_hooks on_match wrap hs m s = (Inr m', s') \<Longrightarrow>
     location m' = location m"
proof (induction hs arbitrary: m s)
  case Nil
  then show ?case by simp
next
  case (Cons h hs)
  from Cons.prems(2) obtain y s1 where
    a: "call_hook on_match wrap h m s = (Inr y, s1)" and b: "run_hooks on_match wrap hs y s1 = (Inr m', s')"
    by (auto split: prod.splits sum.splits)
  from a have "on_match h m (world s) = (Inr y, world s1)"
    by (auto simp: call_hook_def invoke_def split: prod.splits)
  with Cons.prems(1) have "location y = location m" by (auto simp: keepsLocation_def)
  moreover from Cons.prems(1) have "\<forall>h \<in> set hs. keepsLocation h" by simp
  from Cons.IH [OF this b] have "location m' = location y" .
  ultimately show ?case by simp
qed

lemma run_hook_on_all_ok:
  "run_hook_on_all run wrap h xs s = (Inr xs', s') \<Longrightarrow>
     \<exists>tr. calls s' = calls s @ tr \<and> filter isHookCall tr = tr
       \<and> calledHooks tr = replicate (length xs) (cb_id h) \<and> length xs' = length xs
       \<and> config s' = config s \<and> findHooks s' = findHooks s \<and> unawaited s' = unawaited s"
proof (induction xs arbitrary: xs' s)
  case Nil
  then show ?case by auto
next
  case (Cons x xs)
  from Cons.prems obtain y s1 ys where
    a: "call_hook run wrap h x s = (Inr y, s1)" and
    b: "run_hook_on_all run wrap h xs s1 = (Inr ys, s')" and c: "xs' = y # ys"
    by (auto split: prod.splits sum.splits)
  from Cons.IH [OF b] obtain tr where
    tr: "calls s' = calls s1 @ tr" "filter isHookCall tr = tr"
      "calledHooks tr = replicate (length xs) (cb_id h)" "length ys = length xs"
    and f: "config s' = config s1" "findHooks s' = findHooks s1" "unawaited s' = unawaited s1"
    by blast
  from call_hook_fields [OF a] tr f c
  have "calls s' = calls s @ (Hook (cb_id h) (wrap x) # tr)
        \<and> filter isHookCall (Hook (cb_id h) (wrap x) # tr) = Hook (cb_id h) (wrap x) # tr
        \<and> calledHooks (Hook (cb_id h) (wrap x) # tr) = replicate (length (x # xs)) (cb_id h)
        \<and> length xs' = length (x # xs)
        \<and> config s' = config s \<and> findHooks s' = findHooks s \<and> unawaited s' = unawaited s"
    by simp
  then show ?case by (rule exI)
qed

lemma run_hooks_on_all_ok:
  "run_hooks_on_all run wrap hs xs s = (Inr xs', s') \<Longrightarrow>
     \<exists>tr. calls s' = calls s @ tr \<and> filter isHookCall tr = tr
       \<and> calledHooks tr = concat (map (\<lambda>h. replicate (length xs) (cb_id h)) hs)
       \<and> length xs' = length xs
       \<and> config s' = config s \<and> findHooks s' = findHooks s \<and> unawaited s' = unawaited s"
proof (induction hs arbitrary: xs s)
  case Nil
  then show ?case by simp
next
  case (Cons h hs)
  from Cons.prems obtain ys s1 where
    a: "run_hook_on_all run wrap h xs s = (Inr ys, s1)" and
    b: "run_hooks_on_all run wrap hs ys s1 = (Inr xs', s')"
    by (auto split: prod.splits sum.splits)
  from run_hook_on_all_ok [OF a] obtain t1 where
    t1: "calls s1 = calls s @ t1" "filter isHookCall t1 = t1"
      "calledHooks t1 = replicate (length xs) (cb_id h)" "length ys = length xs"
    and f1: "config s1 = config s" "findHooks s1 = findHooks s" "unawaited s1 = unawaited s"
    by blast
  from Cons.IH [OF b] obtain t2 where
    t2: "calls s' = calls s1 @ t2" "filter isHookCall t2 = t2"
      "calledHooks t2 = concat (map (\<lambda>h. replicate (length ys) (cb_id h)) hs)"
      "length xs' = length ys"
    and f2: "config s' = config s1" "findHooks s' = findHooks s1" "unawaited s' = unawaited s1"
    by blast
  from t1 t2 f1 f2
  have "calls s' = calls s @ (t1 @ t2) \<and> filter isHookCall (t1 @ t2) = t1 @ t2
        \<and> calledHooks (t1 @ t2) = concat (map (\<lambda>h. replicate (length xs) (cb_id h)) (h # hs))
        \<and> length xs' = length xs
        \<and> config s' = config s \<and> findHooks s' = findHooks s \<and> unawaited s' = unawaited s"
    by (simp add: calledHooks_append)
  then show ?case by (rule exI)
qed

lemma run_hook_on_all_alone:
  "leavesAlone run h \<Longrightarrow> run_hook_on_all run wrap h xs s = (Inr xs', s') \<Longrightarrow>
     xs' = xs \<and> calls s' = calls s @ map (\<lambda>x. Hook (cb_id h) (wrap x)) xs"
proof (induction xs arbitrary: xs' s)
  case Nil
  then show ?case by auto
next
  case (Cons x xs)
  from Cons.prems(2) obtain y s1 ys where
    a: "call_hook run wrap h x s = (Inr y, s1)" and
    b: "run_hook_on_all run wrap h xs s1 = (Inr ys, s')" and c: "xs' = y # ys"
    by (auto split: prod.splits sum.splits)
  from a have "run h x (world s) = (Inr y, world s1)"
    by (auto simp: call_hook_def invoke_def split: prod.splits)
  with Cons.prems(1) have "y = x" by (auto simp: leavesAlone_def)
  with Cons.IH [OF Cons.prems(1) b] call_hook_fields [OF a] c show ?case by simp
qed

lemma run_hooks_on_all_alone:
  "\<forall>h \<in> set hs. leavesAlone run h \<Longrightarrow> run_hooks_on_all run wrap hs xs s = (Inr xs', s') \<Longrightarrow>
     xs' = xs \<and> calls s' = calls s @ concat (map (\<lambda>h. map (Hook (cb_id h)) (map wrap xs)) hs)"
proof (induction hs arbitrary: s)
  case Nil
  then show ?case by simp
next
  case (Cons h hs)
  from Cons.prems(2) obtain ys s1 where
    a: "run_hook_on_all run wrap h xs s = (Inr ys, s1)" and
    b: "run_hooks_on_all run wrap hs ys s1 = (Inr xs', s')"
    by (auto split: prod.splits sum.splits)
  from Cons.prems(1) have h: "leavesAlone run h" and hs: "\<forall>h \<in> set hs. leavesAlone run h"
    by simp_all
  from run_hook_on_all_alone [OF h a] have y: "ys = xs"
    and c: "calls s1 = calls s @ map (\<lambda>x. Hook (cb_id h) (wrap x)) xs"
    by simp_all
  from Cons.IH [OF hs b [unfolded y]] c show ?case by (simp add: comp_def)
qed

lemma run_hook_on_all_location:
  "keepsLocation h \<Longrightarrow> run_hook_on_all on_match wrap h ms s = (Inr ms', s') \<Longrightarrow>
     map location ms' = map location ms"
proof (induction ms arbitrary: ms' s)
  case Nil
  then show ?case by auto
next
  case (Cons m ms)
  from Cons.prems(2) obtain y s1 ys where
    a: "call_hook on_match wrap h m s = (Inr y, s1)" and
    b: "run_hook_on_all on_match wrap h ms s1 = (Inr ys, s')" and c: "ms' = y # ys"
    by (auto split: prod.splits sum.splits)
  from a have "on_match h m (world s) = (Inr y, world s1)"
    by (auto simp: call_hook_def invoke_def split: prod.splits)
  with Cons.prems(1) have "location y = location m" by (auto simp: keepsLocation_def)
  with Cons.IH [OF Cons.prems(1) b] c show ?case by simp
qed

lemma run_hooks_on_all_location:
  "\<forall>h \<in> set hs. keepsLocation h \<Longrightarrow> run_hooks_on_all on_match wrap hs ms s = (Inr ms', s') \<Longrightarrow>
     map location ms' = map location ms"
proof (induction hs arbitrary: ms s)
  case Nil
  then show ?case by simp
next
  case (Cons h hs)
  from Cons.prems(2) obtain ys s1 where
    a: "run_hook_on_all on_match wrap h ms s = (Inr ys, s1)" and
    b: "run_hooks_on_all on_match wrap hs ys s1 = (Inr ms', s')"
    by (auto split: prod.splits sum.splits)
  from Cons.prems(1) have h: "keepsLocation h" and hs: "\<forall>h \<in> set hs. keepsLocation h"
    by simp_all
  from run_hook_on_all_location [OF h a] Cons.IH [OF hs b] show ?case by simp
qed

subsection \<open>The registry\<close>

lemma on_typed:
  "isImage n \<or> isTextQuery n \<or> isWindowQuery n \<Longrightarrow>
     on n cb s = (Inr (), s\<lparr>findHooks := (findHooks s)(ref n \<mapsto>
        (case findHooks s (ref n) of None \<Rightarrow> [] | Some hs \<Rightarrow> hs) @ [cb])\<rparr>)"
  by (auto simp: on_def)

lemma on_all_fields:
  "config (on_all n cbs s) = config s \<and> world (on_all n cbs s) = world s
   \<and> calls (on_all n cbs s) = calls s \<and> unawaited (on_all n cbs s) = unawaited s"
  by (induction cbs arbitrary: s) (auto simp: on_def)

lemma on_all_findHooks:
  "isImage n \<or> isTextQuery n \<or> isWindowQuery n \<Longrightarrow>
     findHooks (on_all n cbs s) r
       = (if r = ref n \<and> cbs \<noteq> []
          then Some ((case findHooks s (ref n) of None \<Rightarrow> [] | Some hs \<Rightarrow> hs) @ cbs)
          else findHooks s r)"
  by (induction cbs arbitrary: s) (auto simp: on_typed)

lemma on_other_ref:
  "r \<noteq> ref n \<Longrightarrow> findHooks (snd (on n cb s)) r = findHooks s r"
  by (simp add: on_def)

lemma on_only_findHooks:
  "snd (on n cb s) = s\<lparr>findHooks := findHooks (snd (on n cb s))\<rparr>"
  by (simp add: on_def)

lemma possibleHooks_none:
  "findHooks s (ref n) = None \<Longrightarrow> possibleHooks n s = []"
  by (simp add: possibleHooks_def getHooksForInput_def)

lemma possibleHooks_on_all:
  "isImage n \<or> isTextQuery n \<or> isWindowQuery n \<Longrightarrow> findHooks s (ref n) = None \<Longrightarrow>
     possibleHooks n (on_all n cbs s) = cbs"
  by (auto simp: possibleHooks_def getHooksForInput_def on_all_findHooks)

subsection \<open>The shape of a search that succeeds\<close>

lemma find_try_window_raw:
  "isWindowQuery n \<Longrightarrow> find_try pf P n params s = (Inr ret, s') \<Longrightarrow>
     \<exists>h s1 x. invoke (WindowFindMatch n) (WindowFinder_findMatch P n) s = (Inr h, s1)
       \<and> run_hooks on_window WindowTarget (possibleHooks n s1) \<lparr>windowHandle = h\<rparr> s1 = (Inr x, s')
       \<and> ret = Value (WindowResult x)"
  by (auto simp: find_try_def Let_def split: prod.splits sum.splits)

lemma find_try_region_raw:
  "\<not> isWindowQuery n \<Longrightarrow> find_try pf P n params s = (Inr ret, s') \<Longrightarrow>
     \<exists>fp s1 m0 s2 m. getFindParameters P params s = (Inr fp, s1)
       \<and> validateSearchRegion pf (searchRegion fp) (screenSize fp) = Inr ()
       \<and> getMatchResult P (createMatchRequest n (searchRegion fp) (minMatch fp)
               (screenImage fp) params) s1 = (Inr m0, s2)
       \<and> run_hooks on_match MatchTarget (possibleHooks n s2) m0 s2 = (Inr m, s')
       \<and> ret = (if autoHighlight (config s') then Promise (resultRegion pf (searchRegion fp) m)
                 else Value (RegionResult (resultRegion pf (searchRegion fp) m)))"
  by (auto simp: find_try_def Let_def split: prod.splits sum.splits if_splits)

lemma findAll_try_window_raw:
  "isWindowQuery n \<Longrightarrow> findAll_try pf P n params s = (Inr rs, s') \<Longrightarrow>
     \<exists>hs s1 xs. invoke (WindowFindMatches n) (WindowFinder_findMatches P n) s = (Inr hs, s1)
       \<and> run_hooks_on_all on_window WindowTarget (possibleHooks n s1)
             (map (\<lambda>handle. \<lparr>windowHandle = handle\<rparr>) hs) s1 = (Inr xs, s')
       \<and> rs = map WindowResult xs"
  by (auto simp: findAll_try_def Let_def split: prod.splits sum.splits)

lemma findAll_try_region_raw:
  "\<not> isWindowQuery n \<Longrightarrow> findAll_try pf P n params s = (Inr rs, s') \<Longrightarrow>
     \<exists>fp s1 ms0 s2 ms s3. getFindParameters P params s = (Inr fp, s1)
       \<and> validateSearchRegion pf (searchRegion fp) (screenSize fp) = Inr ()
       \<and> getMatchResults P (createMatchRequest n (searchRegion fp) (minMatch fp)
               (screenImage fp) params) s1 = (Inr ms0, s2)
       \<and> run_hooks_on_all on_match MatchTarget (possibleHooks n s2) ms0 s2 = (Inr ms, s3)
       \<and> calls s' = calls s3 \<and> world s' = world s3
       \<and> rs = map RegionResult (map (resultRegion pf (searchRegion fp)) ms)"
  by (auto simp: findAll_try_def Let_def split: prod.splits sum.splits if_splits)

lemma find_try_window_ok:
  "isWindowQuery n \<Longrightarrow> find_try pf P n params s = (Inr ret, s') \<Longrightarrow>
     \<exists>h s1 x. invoke (WindowFindMatch n) (WindowFinder_findMatch P n) s = (Inr h, s1)
       \<and> run_hooks on_window WindowTarget (possibleHooks n s) \<lparr>windowHandle = h\<rparr> s1 = (Inr x, s')
       \<and> calls s1 = calls s @ [WindowFindMatch n]
       \<and> ret = Value (WindowResult x)"
proof -
  assume w: "isWindowQuery n" and f: "find_try pf P n params s = (Inr ret, s')"
  from find_try_window_raw [OF w f] obtain h s1 x where
    a: "invoke (WindowFindMatch n) (WindowFinder_findMatch P n) s = (Inr h, s1)" and
    b: "run_hooks on_window WindowTarget (possibleHooks n s1) \<lparr>windowHandle = h\<rparr> s1 = (Inr x, s')" and
    c: "ret = Value (WindowResult x)"
    by (elim exE conjE)
  from invoke_fields [OF a] have "possibleHooks n s1 = possibleHooks n s"
    by (simp add: possibleHooks_def getHooksForInput_def)
  with a b c invoke_fields [OF a]
  have "invoke (WindowFindMatch n) (WindowFinder_findMatch P n) s = (Inr h, s1)
       \<and> run_hooks on_window WindowTarget (possibleHooks n s) \<lparr>windowHandle = h\<rparr> s1 = (Inr x, s')
       \<and> calls s1 = calls s @ [WindowFindMatch n]
       \<and> ret = Value (WindowResult x)"
    by simp
  then show ?thesis by (intro exI)
qed

lemma find_try_region_ok:
  "\<not> isWindowQuery n \<Longrightarrow> find_try pf P n params s = (Inr ret, s') \<Longrightarrow>
     \<exists>fp s1 m0 s2 m fc. getFindParameters P params s = (Inr fp, s1)
       \<and> validateSearchRegion pf (searchRegion fp) (screenSize fp) = Inr ()
       \<and> getMatchResult P (createMatchRequest n (searchRegion fp) (minMatch fp)
               (screenImage fp) params) s1 = (Inr m0, s2)
       \<and> run_hooks on_match MatchTarget (possibleHooks n s) m0 s2 = (Inr m, s')
       \<and> calls s2 = calls s @ [ScreenSize, GrabScreenRegion (searchRegion fp), fc]
       \<and> \<not> isHookCall fc
       \<and> ret = (if autoHighlight (config s') then Promise (resultRegion pf (searchRegion fp) m)
                 else Value (RegionResult (resultRegion pf (searchRegion fp) m)))"
proof -
  assume w: "\<not> isWindowQuery n" and f: "find_try pf P n params s = (Inr ret, s')"
  from find_try_region_raw [OF w f] obtain fp s1 m0 s2 m where
    a: "getFindParameters P params s = (Inr fp, s1)" and
    v: "validateSearchRegion pf (searchRegion fp) (screenSize fp) = Inr ()" and
    b: "getMatchResult P (createMatchRequest n (searchRegion fp) (minMatch fp)
               (screenImage fp) params) s1 = (Inr m0, s2)" and
    c: "run_hooks on_match MatchTarget (possibleHooks n s2) m0 s2 = (Inr m, s')" and
    d: "ret = (if autoHighlight (config s') then Promise (resultRegion pf (searchRegion fp) m)
                 else Value (RegionResult (resultRegion pf (searchRegion fp) m)))"
    by (elim exE conjE)
  from getFindParameters_ok [OF a] getMatchResult_fields [OF b]
  have ph: "possibleHooks n s2 = possibleHooks n s"
    by (simp add: possibleHooks_def getHooksForInput_def)
  from getMatchResult_fields [OF b] obtain fc where
    fc: "calls s2 = calls s1 @ [fc]" "\<not> isHookCall fc"
    by auto
  with getFindParameters_ok [OF a]
  have "calls s2 = calls s @ [ScreenSize, GrabScreenRegion (searchRegion fp), fc]" by simp
  with a v b c d ph fc(2)
  have "getFindParameters P params s = (Inr fp, s1)
       \<and> validateSearchRegion pf (searchRegion fp) (screenSize fp) = Inr ()
       \<and> getMatchResult P (createMatchRequest n (searchRegion fp) (minMatch fp)
               (screenImage fp) params) s1 = (Inr m0, s2)
       \<and> run_hooks on_match MatchTarget (possibleHooks n s) m0 s2 = (Inr m, s')
       \<and> calls s2 = calls s @ [ScreenSize, GrabScreenRegion (searchRegion fp), fc]
       \<and> \<not> isHookCall fc
       \<and> ret = (if autoHighlight (config s') then Promise (resultRegion pf (searchRegion fp) m)
                 else Value (RegionResult (resultRegion pf (searchRegion fp) m)))"
    by simp
  then show ?thesis by (intro exI)
qed

lemma findAll_try_window_ok:
  "isWindowQuery n \<Longrightarrow> findAll_try pf P n params s = (Inr rs, s') \<Longrightarrow>
     \<exists>hs s1 xs. invoke (WindowFindMatches n) (WindowFinder_findMatches P n) s = (Inr hs, s1)
       \<and> run_hooks_on_all on_window WindowTarget (possibleHooks n s)
             (map (\<lambda>handle. \<lparr>windowHandle = handle\<rparr>) hs) s1 = (Inr xs, s')
       \<and> calls s1 = calls s @ [WindowFindMatches n]
       \<and> rs = map WindowResult xs"
proof -
  assume w: "isWindowQuery n" and f: "findAll_try pf P n params s = (Inr rs, s')"
  from findAll_try_window_raw [OF w f] obtain hs s1 xs where
    a: "invoke (WindowFindMatches n) (WindowFinder_findMatches P n) s = (Inr hs, s1)" and
    b: "run_hooks_on_all on_window WindowTarget (possibleHooks n s1)
             (map (\<lambda>handle. \<lparr>windowHandle = handle\<rparr>) hs) s1 = (Inr xs, s')" and
    c: "rs = map WindowResult xs"
    by (elim exE conjE)
  from invoke_fields [OF a] have "possibleHooks n s1 = possibleHooks n s"
    by (simp add: possibleHooks_def getHooksForInput_def)
  with a b c invoke_fields [OF a]
  have "invoke (WindowFindMatches n) (WindowFinder_findMatches P n) s = (Inr hs, s1)
       \<and> run_hooks_on_all on_window WindowTarget (possibleHooks n s)
             (map (\<lambda>handle. \<lparr>windowHandle = handle\<rparr>) hs) s1 = (Inr xs, s')
       \<and> calls s1 = calls s @ [WindowFindMatches n]
       \<and> rs = map WindowResult xs"
    by simp
  then show ?thesis by (intro exI)
qed

lemma findAll_try_region_ok:
  "\<not> isWindowQuery n \<Longrightarrow> findAll_try pf P n params s = (Inr rs, s') \<Longrightarrow>
     \<exists>fp s1 ms0 s2 ms s3 fc. getFindParameters P params s = (Inr fp, s1)
       \<and> validateSearchRegion pf (searchRegion fp) (screenSize fp) = Inr ()
       \<and> getMatchResults P (createMatchRequest n (searchRegion fp) (minMatch fp)
               (screenImage fp) params) s1 = (Inr ms0, s2)
       \<and> run_hooks_on_all on_match MatchTarget (possibleHooks n s) ms0 s2 = (Inr ms, s3)
       \<and> calls s2 = calls s @ [ScreenSize, GrabScreenRegion (searchRegion fp), fc]
       \<and> \<not> isHookCall fc
       \<and> calls s' = calls s3 \<and> world s' = world s3
       \<and> rs = map RegionResult (map (resultRegion pf (searchRegion fp)) ms)"
proof -
  assume w: "\<not> isWindowQuery n" and f: "findAll_try pf P n params s = (Inr rs, s')"
  from findAll_try_region_raw [OF w f] obtain fp s1 ms0 s2 ms s3 where
    a: "getFindParameters P params s = (Inr fp, s1)" and
    v: "validateSearchRegion pf (searchRegion fp) (screenSize fp) = Inr ()" and
    b: "getMatchResults P (createMatchRequest n (searchRegion fp) (minMatch fp)
               (screenImage fp) params) s1 = (Inr ms0, s2)" and
    c: "run_hooks_on_all on_match MatchTarget (possibleHooks n s2) ms0 s2 = (Inr ms, s3)" and
    d: "calls s' = calls s3" "world s' = world s3" and
    e: "rs = map RegionResult (map (resultRegion pf (searchRegion fp)) ms)"
    by (elim exE conjE)
  from getFindParameters_ok [OF a] getMatchResults_fields [OF b]
  have ph: "possibleHooks n s2 = possibleHooks n s"
    by (simp add: possibleHooks_def getHooksForInput_def)
  from getMatchResults_fields [OF b] obtain fc where
    fc: "calls s2 = calls s1 @ [fc]" "\<not> isHookCall fc"
    by auto
  with getFindParameters_ok [OF a]
  have "calls s2 = calls s @ [ScreenSize, GrabScreenRegion (searchRegion fp), fc]" by simp
  with a v b c d e ph fc(2)
  have "getFindParameters P params s = (Inr fp, s1)
       \<and> validateSearchRegion pf (searchRegion fp) (screenSize fp) = Inr ()
       \<and> getMatchResults P (createMatchRequest n (searchRegion fp) (minMatch fp)
               (screenImage fp) params) s1 = (Inr ms0, s2)
       \<and> run_hooks_on_all on_match MatchTarget (possibleHooks n s) ms0 s2 = (Inr ms, s3)
       \<and> calls s2 = calls s @ [ScreenSize, GrabScreenRegion (searchRegion fp), fc]
       \<and> \<not> isHookCall fc
       \<and> calls s' = calls s3 \<and> world s' = world s3
       \<and> rs = map RegionResult (map (resultRegion pf (searchRegion fp)) ms)"
    by simp
  then show ?thesis by (intro exI)
qed



text \<open>What \<open>find\<close> adds to the trace after its \<open>try\<close> block holds no hook call.\<close>

lemma find_after_try:
  assumes "isImage n \<or> isTextQuery n \<or> isWindowQuery n"
    and "find pf P (Inr n) params s = (Inr res, s')"
  shows "\<exists>ret s1 post. find_try pf P n params s = (Inr ret, s1) \<and> calls s' = calls s1 @ post
           \<and> filter isHookCall post = []
           \<and> (ret = Value res \<or> (\<exists>reg. ret = Promise reg \<and> res = RegionResult reg))"
proof -
  obtain r s1 where t: "find_try pf P n params s = (r, s1)"
    by (cases "find_try pf P n params s")
  from assms t obtain ret where ret: "r = Inr ret"
    by (cases r) (auto simp: find_def)
  show ?thesis
  proof (cases ret)
    case (Value v)
    with assms t ret have "s' = s1" "v = res" by (auto simp: find_def)
    with t ret Value have "find_try pf P n params s = (Inr ret, s1) \<and> calls s' = calls s1 @ []
           \<and> filter isHookCall [] = []
           \<and> (ret = Value res \<or> (\<exists>reg. ret = Promise reg \<and> res = RegionResult reg))"
      by simp
    then show ?thesis by (intro exI)
  next
    case (Promise reg)
    with assms t ret obtain x where h: "highlight P (Inr (IsRegion reg)) s1 = (Inr x, s')"
      and x: "res = RegionResult x"
      by (auto simp: find_def split: prod.splits sum.splits)
    from h have "x = reg" by (auto simp: highlight_def split: prod.splits sum.splits)
    with highlight_fields [OF h] t ret Promise x
    have "find_try pf P n params s = (Inr ret, s1)
           \<and> calls s' = calls s1 @ [HighlightScreenRegion reg (highlightDurationMs (config s1))
                             (highlightOpacity (config s1))]
           \<and> filter isHookCall [HighlightScreenRegion reg (highlightDurationMs (config s1))
                             (highlightOpacity (config s1))] = []
           \<and> (ret = Value res \<or> (\<exists>reg. ret = Promise reg \<and> res = RegionResult reg))"
      by simp
    then show ?thesis by (intro exI)
  qed
qed

lemma findAll_after_try:
  assumes "isImage n \<or> isTextQuery n \<or> isWindowQuery n"
    and "findAll pf P (Inr n) params s = (Inr rs, s')"
  shows "findAll_try pf P n params s = (Inr rs, s')"
  using assms by (auto simp: findAll_def split: prod.splits sum.splits)

subsection \<open>A search whose needle has no hooks\<close>

lemma invoke_frame:
  "invoke c f (s\<lparr>findHooks := fh\<rparr>)
     = (case invoke c f s of (r, s') \<Rightarrow> (r, s'\<lparr>findHooks := fh\<rparr>))"
  by (simp add: invoke_def split: prod.splits)

lemma getFindParameters_frame:
  "getFindParameters P params (s\<lparr>findHooks := fh\<rparr>)
     = (case getFindParameters P params s of (r, s') \<Rightarrow> (r, s'\<lparr>findHooks := fh\<rparr>))"
  by (simp add: getFindParameters_def invoke_def Let_def split: prod.splits sum.splits option.splits)

lemma getMatchResult_frame:
  "getMatchResult P req (s\<lparr>findHooks := fh\<rparr>)
     = (case getMatchResult P req s of (r, s') \<Rightarrow> (r, s'\<lparr>findHooks := fh\<rparr>))"
  by (simp add: getMatchResult_def invoke_frame)

lemma getMatchResults_frame:
  "getMatchResults P req (s\<lparr>findHooks := fh\<rparr>)
     = (case getMatchResults P req s of (r, s') \<Rightarrow> (r, s'\<lparr>findHooks := fh\<rparr>))"
  by (simp add: getMatchResults_def invoke_frame)

lemma highlight_frame:
  "highlight P x (s\<lparr>findHooks := fh\<rparr>)
     = (case highlight P x s of (r, s') \<Rightarrow> (r, s'\<lparr>findHooks := fh\<rparr>))"
  by (simp add: highlight_def invoke_def split: prod.splits sum.splits region_arg.splits)

lemma find_try_frame:
  assumes "findHooks s (ref n) = None" and "fh (ref n) = None"
  shows "find_try pf P n params (s\<lparr>findHooks := fh\<rparr>)
     = (case find_try pf P n params s of (r, s') \<Rightarrow> (r, s'\<lparr>findHooks := fh\<rparr>))"
proof (cases "isWindowQuery n")
  case True
  obtain r s1 where a: "invoke (WindowFindMatch n) (WindowFinder_findMatch P n) s = (r, s1)"
    by (cases "invoke (WindowFindMatch n) (WindowFinder_findMatch P n) s")
  from invoke_fields [OF a] assms have "possibleHooks n s1 = []"
    "possibleHooks n (s1\<lparr>findHooks := fh\<rparr>) = []"
    by (simp_all add: possibleHooks_none)
  with True a show ?thesis
    by (simp add: find_try_def invoke_frame split: sum.splits)
next
  case False
  obtain r s1 where a: "getFindParameters P params s = (r, s1)"
    by (cases "getFindParameters P params s")
  show ?thesis
  proof (cases r)
    case (Inl e)
    with False a show ?thesis by (simp add: find_try_def getFindParameters_frame)
  next
    case (Inr fp)
    let ?req = "createMatchRequest n (searchRegion fp) (minMatch fp) (screenImage fp) params"
    obtain r2 s2 where b: "getMatchResult P ?req s1 = (r2, s2)"
      by (cases "getMatchResult P ?req s1")
    from a Inr have "findHooks s1 = findHooks s" by (simp add: getFindParameters_ok)
    with getMatchResult_fields [OF b] assms have "possibleHooks n s2 = []"
      "possibleHooks n (s2\<lparr>findHooks := fh\<rparr>) = []"
      by (simp_all add: possibleHooks_none)
    with False a Inr b show ?thesis
      by (simp add: find_try_def getFindParameters_frame getMatchResult_frame Let_def
          split: sum.splits)
  qed
qed

lemma findAll_try_frame:
  assumes "findHooks s (ref n) = None" and "fh (ref n) = None"
  shows "findAll_try pf P n params (s\<lparr>findHooks := fh\<rparr>)
     = (case findAll_try pf P n params s of (r, s') \<Rightarrow> (r, s'\<lparr>findHooks := fh\<rparr>))"
proof (cases "isWindowQuery n")
  case True
  obtain r s1 where a: "invoke (WindowFindMatches n) (WindowFinder_findMatches P n) s = (r, s1)"
    by (cases "invoke (WindowFindMatches n) (WindowFinder_findMatches P n) s")
  from invoke_fields [OF a] assms have "possibleHooks n s1 = []"
    "possibleHooks n (s1\<lparr>findHooks := fh\<rparr>) = []"
    by (simp_all add: possibleHooks_none)
  with True a show ?thesis
    by (simp add: findAll_try_def invoke_frame split: sum.splits)
next
  case False
  obtain r s1 where a: "getFindParameters P params s = (r, s1)"
    by (cases "getFindParameters P params s")
  show ?thesis
  proof (cases r)
    case (Inl e)
    with False a show ?thesis by (simp add: findAll_try_def getFindParameters_frame)
  next
    case (Inr fp)
    let ?req = "createMatchRequest n (searchRegion fp) (minMatch fp) (screenImage fp) params"
    obtain r2 s2 where b: "getMatchResults P ?req s1 = (r2, s2)"
      by (cases "getMatchResults P ?req s1")
    from a Inr have "findHooks s1 = findHooks s" by (simp add: getFindParameters_ok)
    with getMatchResults_fields [OF b] assms have "possibleHooks n s2 = []"
      "possibleHooks n (s2\<lparr>findHooks := fh\<rparr>) = []"
      by (simp_all add: possibleHooks_none)
    with False a Inr b show ?thesis
      by (simp add: findAll_try_def getFindParameters_frame getMatchResults_frame Let_def
          split: sum.splits)
  qed
qed

lemma find_frame:
  assumes "findHooks s (ref n) = None" and "fh (ref n) = None"
  shows "find pf P (Inr n) params (s\<lparr>findHooks := fh\<rparr>)
     = (case find pf P (Inr n) params s of (r, s') \<Rightarrow> (r, s'\<lparr>findHooks := fh\<rparr>))"
  using assms by (simp add: find_def find_try_frame highlight_frame
      split: prod.splits sum.splits returned.splits)

lemma findAll_frame:
  assumes "findHooks s (ref n) = None" and "fh (ref n) = None"
  shows "findAll pf P (Inr n) params (s\<lparr>findHooks := fh\<rparr>)
     = (case findAll pf P (Inr n) params s of (r, s') \<Rightarrow> (r, s'\<lparr>findHooks := fh\<rparr>))"
  using assms by (simp add: findAll_def findAll_try_frame split: prod.splits sum.splits)

lemma find_try_without_hooks:
  assumes "findHooks s (ref n) = None" and "find_try pf P n params s = (x, s')"
  shows "\<exists>pre. calls s' = calls s @ pre \<and> filter isHookCall pre = []"
proof (cases "isWindowQuery n")
  case True
  obtain y s0 where a: "invoke (WindowFindMatch n) (WindowFinder_findMatch P n) s = (y, s0)"
    by (cases "invoke (WindowFindMatch n) (WindowFinder_findMatch P n) s")
  from invoke_fields [OF a] assms(1) have ph: "possibleHooks n s0 = []"
    by (simp add: possibleHooks_none)
  from assms(2) True a ph have "s' = s0"
    by (auto simp: find_try_def Let_def split: sum.splits)
  with invoke_fields [OF a] have "calls s' = calls s @ [WindowFindMatch n]
      \<and> filter isHookCall [WindowFindMatch n] = []"
    by simp
  then show ?thesis by (rule exI)
next
  case nw: False
  obtain y s0 where a: "getFindParameters P params s = (y, s0)"
    by (cases "getFindParameters P params s")
  from getFindParameters_calls [OF a] obtain pre where
    pre: "calls s0 = calls s @ pre" "filter isHookCall pre = []" and fh: "findHooks s0 = findHooks s"
    by blast
  show ?thesis
  proof (cases y)
    case (Inl e)
    with assms(2) nw a have "s' = s0" by (simp add: find_try_def)
    with pre show ?thesis by blast
  next
    case (Inr fp)
    let ?req = "createMatchRequest n (searchRegion fp) (minMatch fp) (screenImage fp) params"
    obtain r2 s2 where b: "getMatchResult P ?req s0 = (r2, s2)"
      by (cases "getMatchResult P ?req s0")
    from getMatchResult_fields [OF b] obtain fc where
      fc: "calls s2 = calls s0 @ [fc]" "\<not> isHookCall fc"
      by auto
    from fh getMatchResult_fields [OF b] assms(1) have ph: "possibleHooks n s2 = []"
      by (simp add: possibleHooks_none)
    from assms(2) nw a Inr b ph have "s' = s0 \<or> s' = s2"
      by (auto simp: find_try_def Let_def split: sum.splits if_splits)
    then show ?thesis
    proof
      assume "s' = s0"
      with pre show ?thesis by blast
    next
      assume "s' = s2"
      with pre fc have "calls s' = calls s @ (pre @ [fc]) \<and> filter isHookCall (pre @ [fc]) = []"
        by simp
      then show ?thesis by (rule exI)
    qed
  qed
qed

lemma findAll_try_without_hooks:
  assumes "findHooks s (ref n) = None" and "findAll_try pf P n params s = (x, s')"
  shows "\<exists>pre. calls s' = calls s @ pre \<and> filter isHookCall pre = []"
proof (cases "isWindowQuery n")
  case True
  obtain y s0 where a: "invoke (WindowFindMatches n) (WindowFinder_findMatches P n) s = (y, s0)"
    by (cases "invoke (WindowFindMatches n) (WindowFinder_findMatches P n) s")
  from invoke_fields [OF a] assms(1) have ph: "possibleHooks n s0 = []"
    by (simp add: possibleHooks_none)
  from assms(2) True a ph have "s' = s0"
    by (auto simp: findAll_try_def Let_def split: sum.splits)
  with invoke_fields [OF a] have "calls s' = calls s @ [WindowFindMatches n]
      \<and> filter isHookCall [WindowFindMatches n] = []"
    by simp
  then show ?thesis by (rule exI)
next
  case nw: False
  obtain y s0 where a: "getFindParameters P params s = (y, s0)"
    by (cases "getFindParameters P params s")
  from getFindParameters_calls [OF a] obtain pre where
    pre: "calls s0 = calls s @ pre" "filter isHookCall pre = []" and fh: "findHooks s0 = findHooks s"
    by blast
  show ?thesis
  proof (cases y)
    case (Inl e)
    with assms(2) nw a have "s' = s0" by (simp add: findAll_try_def)
    with pre show ?thesis by blast
  next
    case (Inr fp)
    let ?req = "createMatchRequest n (searchRegion fp) (minMatch fp) (screenImage fp) params"
    obtain r2 s2 where b: "getMatchResults P ?req s0 = (r2, s2)"
      by (cases "getMatchResults P ?req s0")
    from getMatchResults_fields [OF b] obtain fc where
      fc: "calls s2 = calls s0 @ [fc]" "\<not> isHookCall fc"
      by auto
    from fh getMatchResults_fields [OF b] assms(1) have ph: "possibleHooks n s2 = []"
      by (simp add: possibleHooks_none)
    from assms(2) nw a Inr b ph have "calls s' = calls s0 \<or> calls s' = calls s2"
      by (auto simp: findAll_try_def Let_def split: sum.splits if_splits)
    then show ?thesis
    proof
      assume "calls s' = calls s0"
      with pre show ?thesis by auto
    next
      assume "calls s' = calls s2"
      with pre fc have "calls s' = calls s @ (pre @ [fc]) \<and> filter isHookCall (pre @ [fc]) = []"
        by simp
      then show ?thesis by (rule exI)
    qed
  qed
qed

lemma find_without_hooks:
  assumes "findHooks s (ref n) = None" and "find pf P (Inr n) params s = (r, s')"
  shows "filter isHookCall (new_calls s s') = []"
proof (cases "\<not> isImage n \<and> \<not> isTextQuery n \<and> \<not> isWindowQuery n")
  case True
  with assms(2) show ?thesis by (simp add: find_def new_calls_def)
next
  case False
  obtain x s1 where t: "find_try pf P n params s = (x, s1)"
    by (cases "find_try pf P n params s")
  from find_try_without_hooks [OF assms(1) t] obtain pre where
    pre: "calls s1 = calls s @ pre" "filter isHookCall pre = []"
    by blast
  show ?thesis
  proof (cases "\<exists>reg. x = Inr (Promise reg)")
    case True
    then obtain reg where p: "x = Inr (Promise reg)" by blast
    obtain z where h: "highlight P (Inr (IsRegion reg)) s1 = (z, s')"
      using assms(2) False t p by (auto simp: find_def split: prod.splits sum.splits)
    from highlight_fields [OF h] pre show ?thesis
      by (simp add: new_calls_def)
  next
    case np: False
    from assms(2) False t np have "s' = s1"
      by (auto simp: find_def split: sum.splits returned.splits)
    with pre show ?thesis by (simp add: new_calls_def)
  qed
qed

lemma findAll_without_hooks:
  assumes "findHooks s (ref n) = None" and "findAll pf P (Inr n) params s = (r, s')"
  shows "filter isHookCall (new_calls s s') = []"
proof (cases "\<not> isImage n \<and> \<not> isTextQuery n \<and> \<not> isWindowQuery n")
  case True
  with assms(2) show ?thesis by (simp add: findAll_def new_calls_def)
next
  case False
  obtain x s1 where t: "findAll_try pf P n params s = (x, s1)"
    by (cases "findAll_try pf P n params s")
  from findAll_try_without_hooks [OF assms(1) t] obtain pre where
    pre: "calls s1 = calls s @ pre" "filter isHookCall pre = []"
    by blast
  from assms(2) False t have "s' = s1"
    by (auto simp: findAll_def split: sum.splits)
  with pre show ?thesis by (simp add: new_calls_def)
qed

subsection \<open>The place of a hook loop in the trace\<close>

lemma loop_segment:
  assumes "run_hooks run wrap cbs x sb = (Inr x', sa)"
    and "calls sb = calls s @ pre" and "filter isHookCall pre = []"
    and "calls s' = calls sa @ post" and "filter isHookCall post = []"
  shows "calledHooks (new_calls s s') = map cb_id cbs
         \<and> filter isHookCall (new_calls s sb) = []
         \<and> filter isHookCall (new_calls sa s') = []
         \<and> (x', world sa) = fold (hook_step run) cbs (x, world sb)
         \<and> ((\<forall>cb \<in> set cbs. leavesAlone run cb) \<longrightarrow>
               filter isHookCall (new_calls s s') = map (\<lambda>cb. Hook (cb_id cb) (wrap x)) cbs
               \<and> world sa = fold (\<lambda>cb w. snd (run cb x w)) cbs (world sb))"
proof -
  from run_hooks_ok [OF assms(1)] obtain tr where
    tr: "calls sa = calls sb @ tr" "filter isHookCall tr = tr" "calledHooks tr = map cb_id cbs"
    by blast
  from tr assms(2,4) have c: "new_calls s s' = pre @ tr @ post"
    by (simp add: new_calls_def)
  from c tr assms(3,5) have 1: "calledHooks (new_calls s s') = map cb_id cbs"
    by (simp add: calledHooks_append calledHooks_none)
  from assms(2,3) have 2: "filter isHookCall (new_calls s sb) = []"
    by (simp add: new_calls_def)
  from assms(4,5) have 3: "filter isHookCall (new_calls sa s') = []"
    by (simp add: new_calls_def)
  note 4 = run_hooks_world [OF assms(1)]
  have 5: "(\<forall>cb \<in> set cbs. leavesAlone run cb) \<longrightarrow>
               filter isHookCall (new_calls s s') = map (\<lambda>cb. Hook (cb_id cb) (wrap x)) cbs
               \<and> world sa = fold (\<lambda>cb w. snd (run cb x w)) cbs (world sb)"
  proof
    assume "\<forall>cb \<in> set cbs. leavesAlone run cb"
    from run_hooks_alone [OF this assms(1)] tr(1)
    have "tr = map (\<lambda>h. Hook (cb_id h) (wrap x)) cbs"
      and w: "world sa = fold (\<lambda>cb w. snd (run cb x w)) cbs (world sb)"
      by simp_all
    with c tr(2) assms(3,5) show "filter isHookCall (new_calls s s') = map (\<lambda>cb. Hook (cb_id cb) (wrap x)) cbs
               \<and> world sa = fold (\<lambda>cb w. snd (run cb x w)) cbs (world sb)"
      by simp
  qed
  from 1 2 3 4 5 show ?thesis by (intro conjI)
qed

lemma loop_segment_all:
  assumes "run_hooks_on_all run wrap cbs xs sb = (Inr xs', sa)"
    and "calls sb = calls s @ pre" and "filter isHookCall pre = []"
    and "calls s' = calls sa"
  shows "calledHooks (new_calls s s') = concat (map (\<lambda>cb. replicate (length xs) (cb_id cb)) cbs)
         \<and> length (filter isHookCall (new_calls s s')) = length cbs * length xs
         \<and> filter isHookCall (new_calls s sb) = []
         \<and> length xs' = length xs
         \<and> ((\<forall>cb \<in> set cbs. leavesAlone run cb) \<longrightarrow>
               filter isHookCall (new_calls s s')
                 = concat (map (\<lambda>cb. map (Hook (cb_id cb)) (map wrap xs)) cbs))"
proof -
  from run_hooks_on_all_ok [OF assms(1)] obtain tr where
    tr: "calls sa = calls sb @ tr" "filter isHookCall tr = tr"
      "calledHooks tr = concat (map (\<lambda>h. replicate (length xs) (cb_id h)) cbs)"
      and l: "length xs' = length xs"
    by blast
  from tr assms(2,4) have c: "new_calls s s' = pre @ tr"
    by (simp add: new_calls_def)
  from c tr assms(3) have 1: "calledHooks (new_calls s s')
      = concat (map (\<lambda>cb. replicate (length xs) (cb_id cb)) cbs)"
    by (simp add: calledHooks_append calledHooks_none)
  have "length (filter isHookCall (new_calls s s')) = length (calledHooks (new_calls s s'))"
    by (simp add: length_calledHooks)
  with 1 have 2: "length (filter isHookCall (new_calls s s')) = length cbs * length xs"
    by (simp add: length_concat_replicate)
  from assms(2,3) have 3: "filter isHookCall (new_calls s sb) = []"
    by (simp add: new_calls_def)
  have 5: "(\<forall>cb \<in> set cbs. leavesAlone run cb) \<longrightarrow>
               filter isHookCall (new_calls s s')
                 = concat (map (\<lambda>cb. map (Hook (cb_id cb)) (map wrap xs)) cbs)"
  proof
    assume "\<forall>cb \<in> set cbs. leavesAlone run cb"
    from run_hooks_on_all_alone [OF this assms(1)] tr(1)
    have "tr = concat (map (\<lambda>cb. map (Hook (cb_id cb)) (map wrap xs)) cbs)"
      by simp
    with c tr(2) assms(3) show "filter isHookCall (new_calls s s')
                 = concat (map (\<lambda>cb. map (Hook (cb_id cb)) (map wrap xs)) cbs)"
      by simp
  qed
  from 1 2 3 l 5 show ?thesis by (intro conjI)
qed

subsection \<open>The test double, evaluated\<close>

lemmas mock_defs = mockRegistry_def mockScreen_def mockGrab_def needleImage_def mockNeedle_def
  mockTwin_def mockHook_def failingHook_def relocatingHook_def defaultConfig_def
  initialState_def region_def searchIn_def matchAt_def highlightFails_def autoHighlighting_def
  mockPlatform_def

lemmas op_defs = find_def find_try_def findAll_def findAll_try_def getFindParameters_def
  invoke_def validateSearchRegion_def js_gt_def createMatchRequest_def getMatchResult_def
  getMatchResults_def possibleHooks_def getHooksForInput_def resultRegion_def highlight_def
  call_hook_def on_def searchFailed_def new_calls_def invalidSearchRegion_def

lemma mock_getFindParameters_None:
  "getFindParameters (mockRegistry ms) None s
     = (Inr \<lparr>minMatch = confidence (config s), screenSize = mockScreen,
             searchRegion = mockScreen, screenImage = IsImage mockGrab\<rparr>,
        s\<lparr>calls := calls s @ [ScreenSize, GrabScreenRegion mockScreen]\<rparr>)"
  by (simp add: getFindParameters_def invoke_def mockRegistry_def)

lemma mock_getFindParameters_searchIn:
  "getFindParameters (mockRegistry ms) (searchIn r) s
     = (Inr \<lparr>minMatch = confidence (config s), screenSize = mockScreen,
             searchRegion = r, screenImage = IsImage mockGrab\<rparr>,
        s\<lparr>calls := calls s @ [ScreenSize, GrabScreenRegion r]\<rparr>)"
  by (simp add: getFindParameters_def invoke_def mockRegistry_def searchIn_def)

lemma mock_getMatchResult:
  "isImage n \<Longrightarrow> getMatchResult (mockRegistry (m # ms)) (createMatchRequest n r c i p) s
     = (Inr m, s\<lparr>calls := calls s @ [ImageFindMatch (createMatchRequest n r c i p)]\<rparr>)"
  by (simp add: getMatchResult_def createMatchRequest_def invoke_def mockRegistry_def)

lemma mock_getMatchResults:
  "getMatchResults (mockRegistry ms) (createMatchRequest mockNeedle r c i p) s
     = (Inr ms, s\<lparr>calls := calls s @ [ImageFindMatches (createMatchRequest mockNeedle r c i p)]\<rparr>)"
  by (simp add: getMatchResults_def createMatchRequest_def invoke_def mockRegistry_def mockNeedle_def)

lemma mock_screen_valid: "validateSearchRegion mockPlatform mockScreen mockScreen = Inr ()"
  by (simp add: validateSearchRegion_def js_gt_def mockScreen_def mockPlatform_def)

lemma mock_region_valid:
  "validateSearchRegion mockPlatform (region 100 200 300 400) mockScreen = Inr ()"
  by (simp add: validateSearchRegion_def js_gt_def mockScreen_def mockPlatform_def region_def)

lemma mockHook_runs:
  "call_hook on_match wrap (mockHook k) m s
     = (Inr m, s\<lparr>world := world s @ [k], calls := calls s @ [Hook k (wrap m)]\<rparr>)"
  "call_hook on_window wrap' (mockHook k) x s
     = (Inr x, s\<lparr>world := world s @ [k], calls := calls s @ [Hook k (wrap' x)]\<rparr>)"
  by (simp_all add: call_hook_def invoke_def mockHook_def)

lemma failingHook_fails:
  "call_hook on_match wrap (failingHook k) m s
     = (Inl (Error [Str ''hook failed'']), s\<lparr>calls := calls s @ [Hook k (wrap m)]\<rparr>)"
  by (simp add: call_hook_def invoke_def failingHook_def)

lemma relocatingHook_runs:
  "call_hook on_match wrap (relocatingHook k r) m s
     = (Inr (m\<lparr>location := r\<rparr>), s\<lparr>world := world s @ [k], calls := calls s @ [Hook k (wrap m)]\<rparr>)"
  by (simp add: call_hook_def invoke_def relocatingHook_def)

lemma mockHook_leavesAlone:
  "leavesAlone on_match (mockHook k)" "leavesAlone on_window (mockHook k)"
  "keepsLocation (mockHook k)"
  by (simp_all add: leavesAlone_def keepsLocation_def mockHook_def)

lemma mockNeedle_typed: "isImage mockNeedle" "\<not> isWindowQuery mockNeedle" "ref mockNeedle = 1"
  "needle_id mockNeedle = ''image''"
  by (simp_all add: mockNeedle_def needleImage_def)

lemma mockTwin_typed: "isImage mockTwin" "\<not> isWindowQuery mockTwin" "ref mockTwin = 2"
  by (simp_all add: mockTwin_def)

lemma initialState_fields:
  "findHooks initialState r = None" "config initialState = defaultConfig"
  "calls initialState = []" "world initialState = []" "\<not> autoHighlight defaultConfig"
  by (simp_all add: initialState_def defaultConfig_def)

lemmas mock_eval = mock_getFindParameters_None mock_getFindParameters_searchIn mock_screen_valid
  mock_region_valid mock_getMatchResult mock_getMatchResults mockNeedle_typed possibleHooks_def
  getHooksForInput_def on_all_findHooks on_all_fields mockHook_runs failingHook_fails
  relocatingHook_runs initialState_fields

text \<open>
  The sum follows the platform: \<open>10^-14 + 1000\<close> is above 1000 as a real and is 1000
  as a double, so the region \<open>(10^-14, 0, 1000, 1000)\<close> passes the validation on a
  platform that rounds the sum, and fails it where the sum is exact.
\<close>

lemma validation_follows_rounding:
  "validateSearchRegion roundingPlatform
      \<lparr>left = Fin (1 / 10 ^ 14), top = Fin 0, width = Fin 1000, height = Fin 1000\<rparr> mockScreen = Inr ()
   \<and> \<not> invalidSearchRegion roundingPlatform
      \<lparr>left = Fin (1 / 10 ^ 14), top = Fin 0, width = Fin 1000, height = Fin 1000\<rparr> mockScreen
   \<and> invalidSearchRegion mockPlatform
      \<lparr>left = Fin (1 / 10 ^ 14), top = Fin 0, width = Fin 1000, height = Fin 1000\<rparr> mockScreen"
  by (simp add: validateSearchRegion_def invalidSearchRegion_def js_gt_def mockScreen_def
      roundingPlatform_def mockPlatform_def)

subsection \<open>The result of a search is the match, moved into screen coordinates\<close>

text \<open>
  C1. Every successful \<open>find\<close> of an image or a text query returns the location of
  the match result moved by the origin of the search region: left and top are the sums
  \<open>searchRegion.left + matchResult.location.left\<close> and
  \<open>searchRegion.top + matchResult.location.top\<close>, as the platform adds, and width and
  height are those of \<open>matchResult.location\<close>. The match result is the object that
  the finder returned, read when the hooks registered for the needle have run on it; when
  these hooks leave its location as it was, and so when there are none, the location is
  the one the finder returned. \<open>findAll\<close> moves every match result in the same way, in
  the finder's order.
\<close>

theorem find_returns_translated_match:
  "(\<forall>res s'. find pf P (Inr n) params s = (Inr res, s') \<and> \<not> isWindowQuery n \<longrightarrow>
      (\<exists>fp s1 m0 s2 m s3. getFindParameters P params s = (Inr fp, s1)
         \<and> getMatchResult P (createMatchRequest n (searchRegion fp) (minMatch fp)
               (screenImage fp) params) s1 = (Inr m0, s2)
         \<and> run_hooks on_match MatchTarget (possibleHooks n s) m0 s2 = (Inr m, s3)
         \<and> res = RegionResult \<lparr>left = js_add pf (left (searchRegion fp)) (left (location m)),
                                top = js_add pf (top (searchRegion fp)) (top (location m)),
                                width = width (location m), height = height (location m)\<rparr>
         \<and> ((\<forall>h \<in> set (possibleHooks n s). keepsLocation h) \<longrightarrow> location m = location m0)))
   \<and> (\<forall>rs s'. findAll pf P (Inr n) params s = (Inr rs, s') \<and> \<not> isWindowQuery n \<longrightarrow>
      (\<exists>fp s1 ms0 s2 ms s3. getFindParameters P params s = (Inr fp, s1)
         \<and> getMatchResults P (createMatchRequest n (searchRegion fp) (minMatch fp)
               (screenImage fp) params) s1 = (Inr ms0, s2)
         \<and> run_hooks_on_all on_match MatchTarget (possibleHooks n s) ms0 s2 = (Inr ms, s3)
         \<and> rs = map (\<lambda>m. RegionResult
                  \<lparr>left = js_add pf (left (searchRegion fp)) (left (location m)),
                   top = js_add pf (top (searchRegion fp)) (top (location m)),
                   width = width (location m), height = height (location m)\<rparr>) ms
         \<and> ((\<forall>h \<in> set (possibleHooks n s). keepsLocation h) \<longrightarrow>
               map location ms = map location ms0)))"
proof (intro conjI allI impI)
  fix res s'
  assume a: "find pf P (Inr n) params s = (Inr res, s') \<and> \<not> isWindowQuery n"
  then have f: "find pf P (Inr n) params s = (Inr res, s')" and nw: "\<not> isWindowQuery n"
    by simp_all
  from f have ty: "isImage n \<or> isTextQuery n \<or> isWindowQuery n"
    by (auto simp: find_def split: if_splits)
  from find_after_try [OF ty f] obtain ret sa where
    t: "find_try pf P n params s = (Inr ret, sa)" and
    r: "ret = Value res \<or> (\<exists>reg. ret = Promise reg \<and> res = RegionResult reg)"
    by blast
  from find_try_region_ok [OF nw t] obtain fp s1 m0 s2 m where
    g: "getFindParameters P params s = (Inr fp, s1)" and
    b: "getMatchResult P (createMatchRequest n (searchRegion fp) (minMatch fp)
               (screenImage fp) params) s1 = (Inr m0, s2)" and
    c: "run_hooks on_match MatchTarget (possibleHooks n s) m0 s2 = (Inr m, sa)" and
    d: "ret = (if autoHighlight (config sa) then Promise (resultRegion pf (searchRegion fp) m)
                 else Value (RegionResult (resultRegion pf (searchRegion fp) m)))"
    by (elim exE conjE)
  from r d have e: "res = RegionResult (resultRegion pf (searchRegion fp) m)"
    by (auto split: if_splits)
  have k: "(\<forall>h \<in> set (possibleHooks n s). keepsLocation h) \<longrightarrow> location m = location m0"
    using run_hooks_location [OF _ c] by blast
  from g b c e k
  have "getFindParameters P params s = (Inr fp, s1)
         \<and> getMatchResult P (createMatchRequest n (searchRegion fp) (minMatch fp)
               (screenImage fp) params) s1 = (Inr m0, s2)
         \<and> run_hooks on_match MatchTarget (possibleHooks n s) m0 s2 = (Inr m, sa)
         \<and> res = RegionResult \<lparr>left = js_add pf (left (searchRegion fp)) (left (location m)),
                                top = js_add pf (top (searchRegion fp)) (top (location m)),
                                width = width (location m), height = height (location m)\<rparr>
         \<and> ((\<forall>h \<in> set (possibleHooks n s). keepsLocation h) \<longrightarrow> location m = location m0)"
    by (simp add: resultRegion_def)
  then show "\<exists>fp s1 m0 s2 m s3. getFindParameters P params s = (Inr fp, s1)
         \<and> getMatchResult P (createMatchRequest n (searchRegion fp) (minMatch fp)
               (screenImage fp) params) s1 = (Inr m0, s2)
         \<and> run_hooks on_match MatchTarget (possibleHooks n s) m0 s2 = (Inr m, s3)
         \<and> res = RegionResult \<lparr>left = js_add pf (left (searchRegion fp)) (left (location m)),
                                top = js_add pf (top (searchRegion fp)) (top (location m)),
                                width = width (location m), height = height (location m)\<rparr>
         \<and> ((\<forall>h \<in> set (possibleHooks n s). keepsLocation h) \<longrightarrow> location m = location m0)"
    by (intro exI)
next
  fix rs s'
  assume a: "findAll pf P (Inr n) params s = (Inr rs, s') \<and> \<not> isWindowQuery n"
  then have f: "findAll pf P (Inr n) params s = (Inr rs, s')" and nw: "\<not> isWindowQuery n"
    by simp_all
  from f have ty: "isImage n \<or> isTextQuery n \<or> isWindowQuery n"
    by (auto simp: findAll_def split: if_splits)
  note t = findAll_after_try [OF ty f]
  from findAll_try_region_ok [OF nw t] obtain fp s1 ms0 s2 ms s3 where
    g: "getFindParameters P params s = (Inr fp, s1)" and
    b: "getMatchResults P (createMatchRequest n (searchRegion fp) (minMatch fp)
               (screenImage fp) params) s1 = (Inr ms0, s2)" and
    c: "run_hooks_on_all on_match MatchTarget (possibleHooks n s) ms0 s2 = (Inr ms, s3)" and
    e: "rs = map RegionResult (map (resultRegion pf (searchRegion fp)) ms)"
    by (elim exE conjE)
  have k: "(\<forall>h \<in> set (possibleHooks n s). keepsLocation h) \<longrightarrow> map location ms = map location ms0"
    using run_hooks_on_all_location [OF _ c] by blast
  from g b c e k
  have "getFindParameters P params s = (Inr fp, s1)
         \<and> getMatchResults P (createMatchRequest n (searchRegion fp) (minMatch fp)
               (screenImage fp) params) s1 = (Inr ms0, s2)
         \<and> run_hooks_on_all on_match MatchTarget (possibleHooks n s) ms0 s2 = (Inr ms, s3)
         \<and> rs = map (\<lambda>m. RegionResult
                  \<lparr>left = js_add pf (left (searchRegion fp)) (left (location m)),
                   top = js_add pf (top (searchRegion fp)) (top (location m)),
                   width = width (location m), height = height (location m)\<rparr>) ms
         \<and> ((\<forall>h \<in> set (possibleHooks n s). keepsLocation h) \<longrightarrow>
               map location ms = map location ms0)"
    by (simp add: resultRegion_def comp_def)
  then show "\<exists>fp s1 ms0 s2 ms s3. getFindParameters P params s = (Inr fp, s1)
         \<and> getMatchResults P (createMatchRequest n (searchRegion fp) (minMatch fp)
               (screenImage fp) params) s1 = (Inr ms0, s2)
         \<and> run_hooks_on_all on_match MatchTarget (possibleHooks n s) ms0 s2 = (Inr ms, s3)
         \<and> rs = map (\<lambda>m. RegionResult
                  \<lparr>left = js_add pf (left (searchRegion fp)) (left (location m)),
                   top = js_add pf (top (searchRegion fp)) (top (location m)),
                   width = width (location m), height = height (location m)\<rparr>) ms
         \<and> ((\<forall>h \<in> set (possibleHooks n s). keepsLocation h) \<longrightarrow>
               map location ms = map location ms0)"
    by (intro exI)
qed

text \<open>
  The regression scenario of the unit tests: search region \<open>(100, 200, 300, 400)\<close>,
  match at \<open>(50, 100, 150, 200)\<close>, result \<open>(150, 300, 150, 200)\<close>, with a hook
  registered that leaves the match result alone. With a hook that moves the match result
  to \<open>(0, 0, 10, 10)\<close> the result is \<open>(100, 200, 10, 10)\<close>.
\<close>

theorem find_returns_translated_match_witness:
  "(\<exists>s'. find mockPlatform (mockRegistry [matchAt (region 50 100 150 200)]) (Inr mockNeedle)
           (searchIn (region 100 200 300 400)) (on_all mockNeedle [mockHook 1] initialState)
         = (Inr (RegionResult (region 150 300 150 200)), s'))
   \<and> \<not> isWindowQuery mockNeedle
   \<and> possibleHooks mockNeedle (on_all mockNeedle [mockHook 1] initialState) = [mockHook 1]
   \<and> (\<exists>(fp::FindParameters) (m0::MatchResult) (m::MatchResult).
        searchRegion fp = region 100 200 300 400 \<and> location m0 = region 50 100 150 200
        \<and> location m = location m0
        \<and> RegionResult (region 150 300 150 200)
          = RegionResult \<lparr>left = js_add mockPlatform (left (searchRegion fp)) (left (location m)),
                          top = js_add mockPlatform (top (searchRegion fp)) (top (location m)),
                          width = width (location m), height = height (location m)\<rparr>)
   \<and> (\<exists>s'. findAll mockPlatform
           (mockRegistry [matchAt (region 50 100 150 200), matchAt (region 0 0 2 2)])
           (Inr mockNeedle) (searchIn (region 100 200 300 400)) initialState
         = (Inr [RegionResult (region 150 300 150 200), RegionResult (region 100 200 2 2)], s'))
   \<and> fst (find mockPlatform (mockRegistry [matchAt (region 50 100 150 200)]) (Inr mockNeedle)
           (searchIn (region 100 200 300 400))
           (on_all mockNeedle [relocatingHook 1 (region 0 0 10 10)] initialState))
       = Inr (RegionResult (region 100 200 10 10))"
proof -
  let ?P = "mockRegistry [matchAt (region 50 100 150 200)]"
  let ?Q = "mockRegistry [matchAt (region 50 100 150 200), matchAt (region 0 0 2 2)]"
  let ?params = "searchIn (region 100 200 300 400)"
  let ?s = "on_all mockNeedle [mockHook 1] initialState"
  let ?t = "on_all mockNeedle [relocatingHook 1 (region 0 0 10 10)] initialState"
  have r1: "resultRegion mockPlatform (region 100 200 300 400) (matchAt (region 50 100 150 200))
              = region 150 300 150 200"
    and r2: "resultRegion mockPlatform (region 100 200 300 400) (matchAt (region 0 0 2 2))
              = region 100 200 2 2"
    and r3: "resultRegion mockPlatform (region 100 200 300 400)
               ((matchAt (region 50 100 150 200))\<lparr>location := region 0 0 10 10\<rparr>)
              = region 100 200 10 10"
    by (simp_all add: resultRegion_def region_def matchAt_def mockPlatform_def)
  have f: "fst (find mockPlatform ?P (Inr mockNeedle) ?params ?s)
             = Inr (RegionResult (region 150 300 150 200))"
    by (simp add: find_def find_try_def mock_eval r1 del: on_all.simps)
  then obtain s' where h: "find mockPlatform ?P (Inr mockNeedle) ?params ?s
             = (Inr (RegionResult (region 150 300 150 200)), s')"
    by (cases "find mockPlatform ?P (Inr mockNeedle) ?params ?s") auto
  have g: "fst (findAll mockPlatform ?Q (Inr mockNeedle) ?params initialState)
             = Inr [RegionResult (region 150 300 150 200), RegionResult (region 100 200 2 2)]"
    by (simp add: findAll_def findAll_try_def mock_eval r1 r2)
  then obtain s'' where h2: "findAll mockPlatform ?Q (Inr mockNeedle) ?params initialState
             = (Inr [RegionResult (region 150 300 150 200), RegionResult (region 100 200 2 2)], s'')"
    by (cases "findAll mockPlatform ?Q (Inr mockNeedle) ?params initialState") auto
  have mv: "fst (find mockPlatform ?P (Inr mockNeedle) ?params ?t)
             = Inr (RegionResult (region 100 200 10 10))"
    by (simp add: find_def find_try_def mock_eval r3 del: on_all.simps)
  have nw: "\<not> isWindowQuery mockNeedle" by (simp add: mockNeedle_def)
  have ph: "possibleHooks mockNeedle ?s = [mockHook 1]"
    by (simp add: possibleHooks_on_all mockNeedle_typed initialState_fields del: on_all.simps)
  then have kl: "\<forall>h \<in> set (possibleHooks mockNeedle ?s). keepsLocation h"
    by (simp add: mockHook_leavesAlone)
  note th = find_returns_translated_match [of mockPlatform ?P mockNeedle ?params ?s]
  from th [THEN conjunct1, rule_format, OF conjI [OF h nw]]
  obtain fp s1 m0 s2 m s3 where
    a: "getFindParameters ?P ?params ?s = (Inr fp, s1)" and
    b: "getMatchResult ?P (createMatchRequest mockNeedle (searchRegion fp) (minMatch fp)
               (screenImage fp) ?params) s1 = (Inr m0, s2)" and
    rh: "run_hooks on_match MatchTarget (possibleHooks mockNeedle ?s) m0 s2 = (Inr m, s3)" and
    c: "RegionResult (region 150 300 150 200)
          = RegionResult \<lparr>left = js_add mockPlatform (left (searchRegion fp)) (left (location m)),
                          top = js_add mockPlatform (top (searchRegion fp)) (top (location m)),
                          width = width (location m), height = height (location m)\<rparr>" and
    d: "(\<forall>h \<in> set (possibleHooks mockNeedle ?s). keepsLocation h) \<longrightarrow> location m = location m0"
    by (elim exE conjE)
  from a have sr: "searchRegion fp = region 100 200 300 400"
    by (auto simp: mock_getFindParameters_searchIn)
  from b have lm: "location m0 = region 50 100 150 200"
    by (auto simp: mock_getMatchResult mockNeedle_typed matchAt_def)
  from d kl have e: "location m = location m0" by blast
  show ?thesis
  proof (intro conjI)
    show "\<exists>s'. find mockPlatform ?P (Inr mockNeedle) ?params ?s
             = (Inr (RegionResult (region 150 300 150 200)), s')"
      using h by (rule exI)
    show "\<not> isWindowQuery mockNeedle" by (rule nw)
    show "possibleHooks mockNeedle ?s = [mockHook 1]" by (rule ph)
    show "\<exists>(fp::FindParameters) (m0::MatchResult) (m::MatchResult).
        searchRegion fp = region 100 200 300 400 \<and> location m0 = region 50 100 150 200
        \<and> location m = location m0
        \<and> RegionResult (region 150 300 150 200)
          = RegionResult \<lparr>left = js_add mockPlatform (left (searchRegion fp)) (left (location m)),
                          top = js_add mockPlatform (top (searchRegion fp)) (top (location m)),
                          width = width (location m), height = height (location m)\<rparr>"
      using sr lm e c by blast
    show "\<exists>s'. findAll mockPlatform ?Q (Inr mockNeedle) ?params initialState
         = (Inr [RegionResult (region 150 300 150 200), RegionResult (region 100 200 2 2)], s')"
      using h2 by (rule exI)
    show "fst (find mockPlatform ?P (Inr mockNeedle) ?params ?t)
             = Inr (RegionResult (region 100 200 10 10))"
      by (rule mv)
  qed
qed

subsection \<open>An invalid search region is rejected\<close>

text \<open>
  C2. When the search region of a \<open>find\<close> for an image or a text query has a negative
  or NaN component, a width or height under two, or reaches beyond the screen
  (\<open>left + width > screen.width\<close> or \<open>top + height > screen.height\<close>, the sums
  being those of the platform, whatever its rounding), the call is rejected with the
  message \<open>Searching for <id> failed. Reason: '<cause>'\<close>, so that no location is
  returned, and no finder is called during it. A window query never consults a search
  region, which is why the needle is an image or a text query here. The premise speaks of
  whatever region and screen size the parameters resolve to; when they do not resolve at
  all (the screen provider rejects), the call is rejected in the same way.
\<close>

theorem find_rejects_invalid_search_region:
  assumes "isImage n \<or> isTextQuery n"
    and "\<forall>fp s1. getFindParameters P params s = (Inr fp, s1)
           \<longrightarrow> invalidSearchRegion pf (searchRegion fp) (screenSize fp)"
  shows "\<exists>cause s'. find pf P (Inr n) params s
           = (Inl (Error ([Str ''Searching for '', Str (needle_id n), Str '' failed. Reason: '',
                           Str [CHR 0x27]] @ cause @ [Str [CHR 0x27]])), s')
         \<and> filter isFinderCall (new_calls s s') = []"
proof -
  from assms(1) have nw: "\<not> isWindowQuery n" and ty: "isImage n \<or> isTextQuery n"
    by (cases n rule: isImage.cases; simp)+
  obtain r s1 where g: "getFindParameters P params s = (r, s1)"
    by (cases "getFindParameters P params s")
  note nf = getFindParameters_no_finder [OF g]
  show ?thesis
  proof (cases r)
    case (Inl e)
    with g nw ty have "find pf P (Inr n) params s = (Inl (searchFailed n e), s1)"
      by (auto simp: find_def find_try_def)
    with nf show ?thesis by (auto simp: searchFailed_def)
  next
    case (Inr fp)
    with g assms(2) have "invalidSearchRegion pf (searchRegion fp) (screenSize fp)" by simp
    then obtain ve where "validateSearchRegion pf (searchRegion fp) (screenSize fp) = Inl ve"
      using validate_iff_invalid by blast
    with g Inr nw ty have "find pf P (Inr n) params s = (Inl (searchFailed n ve), s1)"
      by (auto simp: find_def find_try_def Let_def)
    with nf show ?thesis by (auto simp: searchFailed_def)
  qed
qed

text \<open>
  The sixteen regions that the unit tests expect to be rejected, on the 1000 by 1000
  screen of the tests; a string in place of a number reads as NaN.
\<close>

lemma unit_test_regions_are_invalid:
  "\<forall>r \<in> set [region (-1) 0 100 100, region 0 (-1) 100 100, region 0 0 (-100) 100,
       region 0 0 100 (-100), region 1100 0 100 100, region 0 1100 100 100,
       region 0 0 1100 100, region 0 0 1000 1100, region 0 0 1 1100, region 0 0 100 1,
       region 600 0 500 100, region 0 500 100 600,
       \<lparr>left = NaN, top = Fin 0, width = Fin 100, height = Fin 100\<rparr>,
       \<lparr>left = Fin 0, top = NaN, width = Fin 100, height = Fin 600\<rparr>,
       \<lparr>left = Fin 0, top = Fin 0, width = NaN, height = Fin 100\<rparr>,
       \<lparr>left = Fin 0, top = Fin 0, width = Fin 100, height = NaN\<rparr>].
     invalidSearchRegion mockPlatform r mockScreen \<and> validateSearchRegion mockPlatform r mockScreen \<noteq> Inr ()"
  by (simp add: invalidSearchRegion_def validateSearchRegion_def js_gt_def region_def mockScreen_def
      mockPlatform_def)

text \<open>
  The region \<open>(-1, 0, 100, 100)\<close> of the unit tests, on the 1000 by 1000 screen.
\<close>

theorem find_rejects_invalid_search_region_witness:
  "(isImage mockNeedle \<or> isTextQuery mockNeedle)
   \<and> (\<exists>fp s1. getFindParameters (mockRegistry [matchAt (region 0 0 10 10)])
                   (searchIn (region (-1) 0 100 100)) initialState = (Inr fp, s1)
          \<and> invalidSearchRegion mockPlatform (searchRegion fp) (screenSize fp))
   \<and> (\<exists>cause s'. find mockPlatform (mockRegistry [matchAt (region 0 0 10 10)]) (Inr mockNeedle)
                      (searchIn (region (-1) 0 100 100)) initialState
           = (Inl (Error ([Str ''Searching for '', Str (needle_id mockNeedle),
                           Str '' failed. Reason: '', Str [CHR 0x27]] @ cause @ [Str [CHR 0x27]])), s')
         \<and> filter isFinderCall (new_calls initialState s') = [])"
proof -
  let ?P = "mockRegistry [matchAt (region 0 0 10 10)]"
  let ?params = "searchIn (region (-1) 0 100 100)"
  have ty: "isImage mockNeedle \<or> isTextQuery mockNeedle"
    by (simp add: mockNeedle_def)
  have inv: "\<forall>fp s1. getFindParameters ?P ?params initialState = (Inr fp, s1)
           \<longrightarrow> invalidSearchRegion mockPlatform (searchRegion fp) (screenSize fp)"
    by (auto simp: getFindParameters_def invoke_def invalidSearchRegion_def mock_defs)
  have ex: "\<exists>fp s1. getFindParameters ?P ?params initialState = (Inr fp, s1)"
    by (simp add: getFindParameters_def invoke_def mock_defs)
  from ex inv have "\<exists>fp s1. getFindParameters ?P ?params initialState = (Inr fp, s1)
          \<and> invalidSearchRegion mockPlatform (searchRegion fp) (screenSize fp)"
    by blast
  with ty find_rejects_invalid_search_region [OF ty inv] show ?thesis
    by blast
qed

subsection \<open>Failures are wrapped\<close>




subsection \<open>A hook that throws\<close>

text \<open>
  C4, as the code has it. The hooks run inside the \<open>try\<close> block, for a window query
  as for an image or a text query. When a hook throws after the hooks before it have
  run, the hooks after it are not called, \<open>find\<close> is rejected, and the caller sees the
  synthesized error with the hook's error as its cause. The calls made from the finder's
  answer on are those of the hooks before the failing one, in order, and then the failing
  one, which is handed the object \<open>t\<close> as they left it; when they leave it alone,
  every one of these calls is on the object that the finder returned.
\<close>

theorem failing_hook_aborts_find:
  assumes "findHooks s (ref n) = Some (before @ hook # after)"
    and "(isWindowQuery n
          \<and> invoke (WindowFindMatch n) (WindowFinder_findMatch P n) s = (Inr h, s2)
          \<and> run_hooks on_window WindowTarget before \<lparr>windowHandle = h\<rparr> s2 = (Inr x, s3)
          \<and> call_hook on_window WindowTarget hook x s3 = (Inl e, s4)
          \<and> t0 = WindowTarget \<lparr>windowHandle = h\<rparr> \<and> t = WindowTarget x)
       \<or> ((isImage n \<or> isTextQuery n)
          \<and> getFindParameters P params s = (Inr fp, s1)
          \<and> validateSearchRegion pf (searchRegion fp) (screenSize fp) = Inr ()
          \<and> getMatchResult P (createMatchRequest n (searchRegion fp) (minMatch fp)
                (screenImage fp) params) s1 = (Inr m0, s2)
          \<and> run_hooks on_match MatchTarget before m0 s2 = (Inr m, s3)
          \<and> call_hook on_match MatchTarget hook m s3 = (Inl e, s4)
          \<and> t0 = MatchTarget m0 \<and> t = MatchTarget m)"
  shows "find pf P (Inr n) params s = (Inl (searchFailed n e), s4)
         \<and> calledHooks (new_calls s2 s4) = map cb_id (before @ [hook])
         \<and> length (new_calls s2 s4) = length before + 1
         \<and> new_calls s3 s4 = [Hook (cb_id hook) t]
         \<and> ((\<forall>b \<in> set before. if isWindowQuery n then leavesAlone on_window b
                                 else leavesAlone on_match b) \<longrightarrow>
               t = t0 \<and> new_calls s2 s4 = map (\<lambda>h. Hook (cb_id h) t0) (before @ [hook]))"
proof -
  have loop: "calledHooks (new_calls s2 s4) = map cb_id (before @ [hook])
         \<and> length (new_calls s2 s4) = length before + 1
         \<and> new_calls s3 s4 = [Hook (cb_id hook) (wrap y')]
         \<and> ((\<forall>b \<in> set before. leavesAlone run b) \<longrightarrow>
               y' = y \<and> new_calls s2 s4 = map (\<lambda>h. Hook (cb_id h) (wrap y)) (before @ [hook]))"
    if b: "run_hooks run wrap before y s2 = (Inr y', s3)"
      and c: "call_hook run wrap hook y' s3 = (Inl e, s4)"
    for run :: "'a FindHookCallback \<Rightarrow> 'b \<Rightarrow> 'a \<Rightarrow> (thrown + 'b) \<times> 'a" and wrap y y'
  proof -
    from run_hooks_ok [OF b] obtain tr where
      tr: "calls s3 = calls s2 @ tr" "filter isHookCall tr = tr" "calledHooks tr = map cb_id before"
      by blast
    note f = call_hook_fields [OF c]
    from tr(3) have "length (calledHooks tr) = length before" by simp
    with tr(2) have ltr: "length tr = length before" by (simp add: length_calledHooks)
    from tr f have n: "new_calls s2 s4 = tr @ [Hook (cb_id hook) (wrap y')]"
      by (simp add: new_calls_def)
    from n tr(3) have 1: "calledHooks (new_calls s2 s4) = map cb_id (before @ [hook])"
      by (simp add: calledHooks_append)
    from n ltr have 2: "length (new_calls s2 s4) = length before + 1" by simp
    from f have 3: "new_calls s3 s4 = [Hook (cb_id hook) (wrap y')]"
      by (simp add: new_calls_def)
    have 4: "(\<forall>b \<in> set before. leavesAlone run b) \<longrightarrow>
               y' = y \<and> new_calls s2 s4 = map (\<lambda>h. Hook (cb_id h) (wrap y)) (before @ [hook])"
    proof
      assume "\<forall>b \<in> set before. leavesAlone run b"
      from run_hooks_alone [OF this b] tr(1) n
      show "y' = y \<and> new_calls s2 s4 = map (\<lambda>h. Hook (cb_id h) (wrap y)) (before @ [hook])"
        by simp
    qed
    from 1 2 3 4 show ?thesis by (intro conjI)
  qed
  from assms(2) show ?thesis
  proof
    assume w: "isWindowQuery n
          \<and> invoke (WindowFindMatch n) (WindowFinder_findMatch P n) s = (Inr h, s2)
          \<and> run_hooks on_window WindowTarget before \<lparr>windowHandle = h\<rparr> s2 = (Inr x, s3)
          \<and> call_hook on_window WindowTarget hook x s3 = (Inl e, s4)
          \<and> t0 = WindowTarget \<lparr>windowHandle = h\<rparr> \<and> t = WindowTarget x"
    then have a: "invoke (WindowFindMatch n) (WindowFinder_findMatch P n) s = (Inr h, s2)"
      and b: "run_hooks on_window WindowTarget before \<lparr>windowHandle = h\<rparr> s2 = (Inr x, s3)"
      and c: "call_hook on_window WindowTarget hook x s3 = (Inl e, s4)"
      and t: "t0 = WindowTarget \<lparr>windowHandle = h\<rparr>" "t = WindowTarget x"
      by simp_all
    from invoke_fields [OF a] assms(1) w
    have "possibleHooks n s2 = before @ hook # after"
      by (simp add: possibleHooks_def getHooksForInput_def)
    with run_hooks_abort [OF b c, of after]
    have "run_hooks on_window WindowTarget (possibleHooks n s2) \<lparr>windowHandle = h\<rparr> s2 = (Inl e, s4)"
      by simp
    with w a have "find pf P (Inr n) params s = (Inl (searchFailed n e), s4)"
      by (simp add: find_def find_try_def)
    moreover from w have "isWindowQuery n" by simp
    ultimately show ?thesis using loop [OF b c] t by simp
  next
    assume r: "(isImage n \<or> isTextQuery n)
          \<and> getFindParameters P params s = (Inr fp, s1)
          \<and> validateSearchRegion pf (searchRegion fp) (screenSize fp) = Inr ()
          \<and> getMatchResult P (createMatchRequest n (searchRegion fp) (minMatch fp)
                (screenImage fp) params) s1 = (Inr m0, s2)
          \<and> run_hooks on_match MatchTarget before m0 s2 = (Inr m, s3)
          \<and> call_hook on_match MatchTarget hook m s3 = (Inl e, s4)
          \<and> t0 = MatchTarget m0 \<and> t = MatchTarget m"
    then have ty: "isImage n \<or> isTextQuery n" and nw: "\<not> isWindowQuery n"
      by (cases n rule: isImage.cases; simp)+
    from r have g: "getFindParameters P params s = (Inr fp, s1)"
      and v: "validateSearchRegion pf (searchRegion fp) (screenSize fp) = Inr ()"
      and f: "getMatchResult P (createMatchRequest n (searchRegion fp) (minMatch fp)
                (screenImage fp) params) s1 = (Inr m0, s2)"
      and b: "run_hooks on_match MatchTarget before m0 s2 = (Inr m, s3)"
      and c: "call_hook on_match MatchTarget hook m s3 = (Inl e, s4)"
      and t: "t0 = MatchTarget m0" "t = MatchTarget m"
      by simp_all
    from getFindParameters_ok [OF g] getMatchResult_fields [OF f] assms(1) ty
    have "possibleHooks n s2 = before @ hook # after"
      by (auto simp: possibleHooks_def getHooksForInput_def)
    with run_hooks_abort [OF b c, of after]
    have "run_hooks on_match MatchTarget (possibleHooks n s2) m0 s2 = (Inl e, s4)"
      by simp
    with g v f nw ty have "find pf P (Inr n) params s = (Inl (searchFailed n e), s4)"
      by (auto simp: find_def find_try_def Let_def)
    with loop [OF b c] t nw show ?thesis by simp
  qed
qed

text \<open>
  C4 as stated fails: the caller does not see the hook's own error.
\<close>

theorem hook_error_is_wrapped:
  "fst (find mockPlatform (mockRegistry [matchAt (region 50 100 150 200)]) (Inr mockNeedle) None
          (on_all mockNeedle [failingHook 1] initialState))
     = Inl (searchFailed mockNeedle (Error [Str ''hook failed'']))
   \<and> fst (find mockPlatform (mockRegistry [matchAt (region 50 100 150 200)]) (Inr mockNeedle) None
          (on_all mockNeedle [failingHook 1] initialState))
     \<noteq> Inl (Error [Str ''hook failed''])"
  by (simp add: find_def find_try_def mock_eval searchFailed_def del: on_all.simps)

text \<open>
  Three hooks, the second of which throws: the first two are called, the third is not.
\<close>

theorem failing_hook_aborts_find_witness:
  "findHooks (on_all mockNeedle [mockHook 1, failingHook 2, mockHook 3] initialState)
            (ref mockNeedle) = Some ([mockHook 1] @ failingHook 2 # [mockHook 3])
   \<and> (isImage mockNeedle \<or> isTextQuery mockNeedle)
   \<and> (\<exists>s2 s4.
        find mockPlatform (mockRegistry [matchAt (region 50 100 150 200)]) (Inr mockNeedle) None
            (on_all mockNeedle [mockHook 1, failingHook 2, mockHook 3] initialState)
            = (Inl (searchFailed mockNeedle (Error [Str ''hook failed''])), s4)
        \<and> calledHooks (new_calls s2 s4) = [1, 2]
        \<and> new_calls s2 s4 = [Hook 1 (MatchTarget (matchAt (region 50 100 150 200))),
                              Hook 2 (MatchTarget (matchAt (region 50 100 150 200)))])"
proof -
  let ?P = "mockRegistry [matchAt (region 50 100 150 200)]"
  let ?s = "on_all mockNeedle [mockHook 1, failingHook 2, mockHook 3] initialState"
  let ?m = "matchAt (region 50 100 150 200)"
  let ?fp = "\<lparr>minMatch = confidence (config ?s), screenSize = mockScreen,
             searchRegion = mockScreen, screenImage = IsImage mockGrab\<rparr>"
  have ty: "isImage mockNeedle \<or> isTextQuery mockNeedle"
    by (simp add: mockNeedle_typed)
  obtain s1 where g: "getFindParameters ?P None ?s = (Inr ?fp, s1)"
    by (simp add: mock_getFindParameters_None)
  have v: "validateSearchRegion mockPlatform (searchRegion ?fp) (screenSize ?fp) = Inr ()"
    by (simp add: mock_screen_valid)
  obtain s2 where r: "getMatchResult ?P (createMatchRequest mockNeedle (searchRegion ?fp)
                (minMatch ?fp) (screenImage ?fp) None) s1 = (Inr ?m, s2)"
    by (simp add: mock_getMatchResult mockNeedle_typed)
  have h: "findHooks ?s (ref mockNeedle) = Some ([mockHook 1] @ failingHook 2 # [mockHook 3])"
    by (simp add: on_all_findHooks mockNeedle_typed initialState_def del: on_all.simps)
  obtain s3 where b: "run_hooks on_match MatchTarget [mockHook 1] ?m s2 = (Inr ?m, s3)"
    by (simp add: mockHook_runs)
  obtain s4 where c: "call_hook on_match MatchTarget (failingHook 2) ?m s3
            = (Inl (Error [Str ''hook failed'']), s4)"
    by (simp add: failingHook_fails)
  have la: "\<forall>b \<in> set [mockHook 1]. if isWindowQuery mockNeedle then leavesAlone on_window b
                                 else leavesAlone on_match b"
    by (simp add: mockHook_leavesAlone)
  from ty g v r b c have d: "(isWindowQuery mockNeedle
          \<and> invoke (WindowFindMatch mockNeedle) (WindowFinder_findMatch ?P mockNeedle) ?s = (Inr 0, s2)
          \<and> run_hooks on_window WindowTarget [mockHook 1] \<lparr>windowHandle = 0\<rparr> s2
               = (Inr \<lparr>windowHandle = 0\<rparr>, s3)
          \<and> call_hook on_window WindowTarget (failingHook 2) \<lparr>windowHandle = 0\<rparr> s3
               = (Inl (Error [Str ''hook failed'']), s4)
          \<and> MatchTarget ?m = WindowTarget \<lparr>windowHandle = 0\<rparr>
          \<and> MatchTarget ?m = WindowTarget \<lparr>windowHandle = 0\<rparr>)
       \<or> ((isImage mockNeedle \<or> isTextQuery mockNeedle)
          \<and> getFindParameters ?P None ?s = (Inr ?fp, s1)
          \<and> validateSearchRegion mockPlatform (searchRegion ?fp) (screenSize ?fp) = Inr ()
          \<and> getMatchResult ?P (createMatchRequest mockNeedle (searchRegion ?fp) (minMatch ?fp)
                (screenImage ?fp) None) s1 = (Inr ?m, s2)
          \<and> run_hooks on_match MatchTarget [mockHook 1] ?m s2 = (Inr ?m, s3)
          \<and> call_hook on_match MatchTarget (failingHook 2) ?m s3
               = (Inl (Error [Str ''hook failed'']), s4)
          \<and> MatchTarget ?m = MatchTarget ?m \<and> MatchTarget ?m = MatchTarget ?m)"
    by simp
  from failing_hook_aborts_find [OF h d] la
  have "find mockPlatform ?P (Inr mockNeedle) None ?s
            = (Inl (searchFailed mockNeedle (Error [Str ''hook failed''])), s4)
        \<and> calledHooks (new_calls s2 s4) = [1, 2]
        \<and> new_calls s2 s4 = [Hook 1 (MatchTarget ?m), Hook 2 (MatchTarget ?m)]"
    by (simp add: mockHook_def failingHook_def)
  with ty h show ?thesis by blast
qed

subsection \<open>Validation comes after the screen provider\<close>

text \<open>
  C5, as the code has it. The validation needs the screen size, and \<open>getFindParameters\<close>
  grabs the search region before \<open>validateSearchRegion\<close> runs. So for a \<open>find\<close> of
  an image or a text query, when \<open>screenSize\<close> and \<open>grabScreenRegion\<close> have resolved
  and the search region is invalid (a negative or NaN component, a width or height under
  two, or an extent beyond the screen, with the sums as the platform computes them), the
  screen provider has been called exactly twice when the validation error is raised,
  \<open>screenSize\<close> and then \<open>grabScreenRegion\<close> of that region, and nothing else: no
  finder is called before the failure, nor after it.
\<close>

theorem invalid_region_fails_before_finder:
  assumes "isImage n \<or> isTextQuery n"
    and "getFindParameters P params s = (Inr fp, s1)"
    and "invalidSearchRegion pf (searchRegion fp) (screenSize fp)"
  shows "\<exists>ve. validateSearchRegion pf (searchRegion fp) (screenSize fp) = Inl ve
           \<and> find pf P (Inr n) params s = (Inl (searchFailed n ve), s1)
           \<and> new_calls s s1 = [ScreenSize, GrabScreenRegion (searchRegion fp)]
           \<and> filter isFinderCall (new_calls s s1) = []"
proof -
  from assms(1) have nw: "\<not> isWindowQuery n" and ty: "isImage n \<or> isTextQuery n"
    by (cases n rule: isImage.cases; simp)+
  from assms(3) obtain ve where v: "validateSearchRegion pf (searchRegion fp) (screenSize fp) = Inl ve"
    using validate_iff_invalid by blast
  with assms(2) nw ty have f: "find pf P (Inr n) params s = (Inl (searchFailed n ve), s1)"
    by (auto simp: find_def find_try_def Let_def)
  from getFindParameters_ok [OF assms(2)]
  have c: "new_calls s s1 = [ScreenSize, GrabScreenRegion (searchRegion fp)]"
    by (simp add: new_calls_def)
  then have "filter isFinderCall (new_calls s s1) = []" by simp
  with v f c show ?thesis by blast
qed

text \<open>
  C5 as stated fails: with the search region \<open>(-1, 0, 100, 100)\<close> the call is rejected
  for its negative value, and by then the trace holds both calls to the screen provider.
\<close>

theorem screen_provider_called_before_validation:
  "fst (find mockPlatform (mockRegistry [matchAt (region 0 0 10 10)]) (Inr mockNeedle)
          (searchIn (region (-1) 0 100 100)) initialState)
     = Inl (searchFailed mockNeedle
              (Error [Str ''Negative values in search region '', Reg (region (-1) 0 100 100)]))
   \<and> calls (snd (find mockPlatform (mockRegistry [matchAt (region 0 0 10 10)]) (Inr mockNeedle)
          (searchIn (region (-1) 0 100 100)) initialState))
     = [ScreenSize, GrabScreenRegion (region (-1) 0 100 100)]"
  by (simp add: op_defs mock_defs)

text \<open>
  The region \<open>(600, 0, 500, 100)\<close> of the unit tests, which leaves the screen on the x axis.
\<close>

theorem invalid_region_fails_before_finder_witness:
  "(isImage mockNeedle \<or> isTextQuery mockNeedle)
   \<and> (\<exists>fp s1 ve. getFindParameters (mockRegistry [matchAt (region 0 0 10 10)])
                   (searchIn (region 600 0 500 100)) initialState = (Inr fp, s1)
          \<and> invalidSearchRegion mockPlatform (searchRegion fp) (screenSize fp)
          \<and> validateSearchRegion mockPlatform (searchRegion fp) (screenSize fp) = Inl ve
          \<and> find mockPlatform (mockRegistry [matchAt (region 0 0 10 10)]) (Inr mockNeedle)
                (searchIn (region 600 0 500 100)) initialState = (Inl (searchFailed mockNeedle ve), s1)
          \<and> new_calls initialState s1 = [ScreenSize, GrabScreenRegion (region 600 0 500 100)])"
proof -
  let ?P = "mockRegistry [matchAt (region 0 0 10 10)]"
  let ?params = "searchIn (region 600 0 500 100)"
  have ty: "isImage mockNeedle \<or> isTextQuery mockNeedle"
    by (simp add: mockNeedle_def)
  obtain fp s1 where g: "getFindParameters ?P ?params initialState = (Inr fp, s1)"
    by (simp add: getFindParameters_def invoke_def mock_defs)
  then have sr: "searchRegion fp = region 600 0 500 100" and sc: "screenSize fp = mockScreen"
    by (auto simp: getFindParameters_def invoke_def mock_defs)
  then have inv: "invalidSearchRegion mockPlatform (searchRegion fp) (screenSize fp)"
    by (simp add: invalidSearchRegion_def js_gt_def mock_defs)
  from invalid_region_fails_before_finder [OF ty g inv] ty g inv sr show ?thesis
    by auto
qed

subsection \<open>Hooks run once each, in order\<close>

text \<open>
  C6. After \<open>on(needle, cb1), ..., on(needle, cbN)\<close> on a needle that had no hooks, a
  successful \<open>find\<close> of that needle calls exactly these hooks, each once, in the order
  of their registration. A successful \<open>findAll\<close> with M results calls each hook once
  for every result, the first hook on all results, then the second, and so on: N times M
  calls. Each hook is awaited before the next one starts: the calls are those of the
  sequential loop \<open>run_hooks\<close> over the registered hooks, begun after the finder has
  answered and before any hook has run, every call resolving, and the object and the
  world it leaves are the object and the world passed through the hooks one after the
  other in that order; no hook is called before or after the loop. Every hook is handed
  the one object, a window for a window query and a match result otherwise; when the
  hooks leave it alone, every call in the trace shows it as the finder returned it.
\<close>

theorem registered_hooks_run_once_in_order:
  assumes "isImage n \<or> isTextQuery n \<or> isWindowQuery n"
    and "findHooks s0 (ref n) = None"
  shows "(\<forall>res s'. find pf P (Inr n) params (on_all n cbs s0) = (Inr res, s') \<longrightarrow>
            (\<exists>sb sa. calledHooks (new_calls (on_all n cbs s0) s') = map cb_id cbs
               \<and> length (filter isHookCall (new_calls (on_all n cbs s0) s')) = length cbs
               \<and> filter isHookCall (new_calls (on_all n cbs s0) sb) = []
               \<and> filter isHookCall (new_calls sa s') = []
               \<and> ((\<exists>x x'. isWindowQuery n
                      \<and> run_hooks on_window WindowTarget cbs x sb = (Inr x', sa)
                      \<and> (x', world sa) = fold (hook_step on_window) cbs (x, world sb)
                      \<and> ((\<forall>cb \<in> set cbs. leavesAlone on_window cb) \<longrightarrow>
                            filter isHookCall (new_calls (on_all n cbs s0) s')
                              = map (\<lambda>cb. Hook (cb_id cb) (WindowTarget x)) cbs
                            \<and> world sa = fold (\<lambda>cb w. snd (on_window cb x w)) cbs (world sb)))
                  \<or> (\<exists>m m'. (isImage n \<or> isTextQuery n)
                      \<and> run_hooks on_match MatchTarget cbs m sb = (Inr m', sa)
                      \<and> (m', world sa) = fold (hook_step on_match) cbs (m, world sb)
                      \<and> ((\<forall>cb \<in> set cbs. leavesAlone on_match cb) \<longrightarrow>
                            filter isHookCall (new_calls (on_all n cbs s0) s')
                              = map (\<lambda>cb. Hook (cb_id cb) (MatchTarget m)) cbs
                            \<and> world sa = fold (\<lambda>cb w. snd (on_match cb m w)) cbs (world sb))))))
       \<and> (\<forall>rs s'. findAll pf P (Inr n) params (on_all n cbs s0) = (Inr rs, s') \<longrightarrow>
            (\<exists>sb sa. calledHooks (new_calls (on_all n cbs s0) s')
                   = concat (map (\<lambda>cb. replicate (length rs) (cb_id cb)) cbs)
               \<and> length (filter isHookCall (new_calls (on_all n cbs s0) s'))
                   = length cbs * length rs
               \<and> filter isHookCall (new_calls (on_all n cbs s0) sb) = []
               \<and> world s' = world sa
               \<and> ((\<exists>xs xs'. isWindowQuery n \<and> length xs = length rs
                      \<and> run_hooks_on_all on_window WindowTarget cbs xs sb = (Inr xs', sa)
                      \<and> ((\<forall>cb \<in> set cbs. leavesAlone on_window cb) \<longrightarrow>
                            filter isHookCall (new_calls (on_all n cbs s0) s')
                              = concat (map (\<lambda>cb. map (Hook (cb_id cb)) (map WindowTarget xs)) cbs)))
                  \<or> (\<exists>ms ms'. (isImage n \<or> isTextQuery n) \<and> length ms = length rs
                      \<and> run_hooks_on_all on_match MatchTarget cbs ms sb = (Inr ms', sa)
                      \<and> ((\<forall>cb \<in> set cbs. leavesAlone on_match cb) \<longrightarrow>
                            filter isHookCall (new_calls (on_all n cbs s0) s')
                              = concat (map (\<lambda>cb. map (Hook (cb_id cb)) (map MatchTarget ms)) cbs))))))"
proof (intro conjI allI impI)
  let ?s = "on_all n cbs s0"
  from assms have ph: "possibleHooks n ?s = cbs" by (rule possibleHooks_on_all)
  fix res s'
  assume f: "find pf P (Inr n) params ?s = (Inr res, s')"
  from find_after_try [OF assms(1) f] obtain ret s1 post where
    t: "find_try pf P n params ?s = (Inr ret, s1)" and
    po: "calls s' = calls s1 @ post" "filter isHookCall post = []"
    by blast
  show "\<exists>sb sa. calledHooks (new_calls ?s s') = map cb_id cbs
               \<and> length (filter isHookCall (new_calls ?s s')) = length cbs
               \<and> filter isHookCall (new_calls ?s sb) = []
               \<and> filter isHookCall (new_calls sa s') = []
               \<and> ((\<exists>x x'. isWindowQuery n
                      \<and> run_hooks on_window WindowTarget cbs x sb = (Inr x', sa)
                      \<and> (x', world sa) = fold (hook_step on_window) cbs (x, world sb)
                      \<and> ((\<forall>cb \<in> set cbs. leavesAlone on_window cb) \<longrightarrow>
                            filter isHookCall (new_calls ?s s')
                              = map (\<lambda>cb. Hook (cb_id cb) (WindowTarget x)) cbs
                            \<and> world sa = fold (\<lambda>cb w. snd (on_window cb x w)) cbs (world sb)))
                  \<or> (\<exists>m m'. (isImage n \<or> isTextQuery n)
                      \<and> run_hooks on_match MatchTarget cbs m sb = (Inr m', sa)
                      \<and> (m', world sa) = fold (hook_step on_match) cbs (m, world sb)
                      \<and> ((\<forall>cb \<in> set cbs. leavesAlone on_match cb) \<longrightarrow>
                            filter isHookCall (new_calls ?s s')
                              = map (\<lambda>cb. Hook (cb_id cb) (MatchTarget m)) cbs
                            \<and> world sa = fold (\<lambda>cb w. snd (on_match cb m w)) cbs (world sb))))"
  proof (cases "isWindowQuery n")
    case True
    from find_try_window_ok [OF True t] ph obtain h sb x' where
      l: "run_hooks on_window WindowTarget cbs \<lparr>windowHandle = h\<rparr> sb = (Inr x', s1)" and
      c: "calls sb = calls ?s @ [WindowFindMatch n]"
      by auto
    have p: "filter isHookCall [WindowFindMatch n] = []" by simp
    note seg = loop_segment [OF l c p po]
    from seg have "length (calledHooks (new_calls ?s s')) = length cbs" by simp
    then have k: "length (filter isHookCall (new_calls ?s s')) = length cbs"
      by (simp add: length_calledHooks)
    from seg k True l
    have "calledHooks (new_calls ?s s') = map cb_id cbs
               \<and> length (filter isHookCall (new_calls ?s s')) = length cbs
               \<and> filter isHookCall (new_calls ?s sb) = []
               \<and> filter isHookCall (new_calls s1 s') = []
               \<and> ((\<exists>x x'. isWindowQuery n
                      \<and> run_hooks on_window WindowTarget cbs x sb = (Inr x', s1)
                      \<and> (x', world s1) = fold (hook_step on_window) cbs (x, world sb)
                      \<and> ((\<forall>cb \<in> set cbs. leavesAlone on_window cb) \<longrightarrow>
                            filter isHookCall (new_calls ?s s')
                              = map (\<lambda>cb. Hook (cb_id cb) (WindowTarget x)) cbs
                            \<and> world s1 = fold (\<lambda>cb w. snd (on_window cb x w)) cbs (world sb)))
                  \<or> (\<exists>m m'. (isImage n \<or> isTextQuery n)
                      \<and> run_hooks on_match MatchTarget cbs m sb = (Inr m', s1)
                      \<and> (m', world s1) = fold (hook_step on_match) cbs (m, world sb)
                      \<and> ((\<forall>cb \<in> set cbs. leavesAlone on_match cb) \<longrightarrow>
                            filter isHookCall (new_calls ?s s')
                              = map (\<lambda>cb. Hook (cb_id cb) (MatchTarget m)) cbs
                            \<and> world s1 = fold (\<lambda>cb w. snd (on_match cb m w)) cbs (world sb))))"
      by blast
    then show ?thesis by (intro exI)
  next
    case False
    with assms(1) have ty: "isImage n \<or> isTextQuery n" by simp
    from find_try_region_ok [OF False t] ph obtain fp :: FindParameters and m0 sb m' fc where
      l: "run_hooks on_match MatchTarget cbs m0 sb = (Inr m', s1)" and
      c: "calls sb = calls ?s @ [ScreenSize, GrabScreenRegion (searchRegion fp), fc]" and
      nh: "\<not> isHookCall fc"
      by auto
    from nh have p: "filter isHookCall [ScreenSize, GrabScreenRegion (searchRegion fp), fc] = []"
      by simp
    note seg = loop_segment [OF l c p po]
    from seg have "length (calledHooks (new_calls ?s s')) = length cbs" by simp
    then have k: "length (filter isHookCall (new_calls ?s s')) = length cbs"
      by (simp add: length_calledHooks)
    from seg k ty l
    have "calledHooks (new_calls ?s s') = map cb_id cbs
               \<and> length (filter isHookCall (new_calls ?s s')) = length cbs
               \<and> filter isHookCall (new_calls ?s sb) = []
               \<and> filter isHookCall (new_calls s1 s') = []
               \<and> ((\<exists>x x'. isWindowQuery n
                      \<and> run_hooks on_window WindowTarget cbs x sb = (Inr x', s1)
                      \<and> (x', world s1) = fold (hook_step on_window) cbs (x, world sb)
                      \<and> ((\<forall>cb \<in> set cbs. leavesAlone on_window cb) \<longrightarrow>
                            filter isHookCall (new_calls ?s s')
                              = map (\<lambda>cb. Hook (cb_id cb) (WindowTarget x)) cbs
                            \<and> world s1 = fold (\<lambda>cb w. snd (on_window cb x w)) cbs (world sb)))
                  \<or> (\<exists>m m'. (isImage n \<or> isTextQuery n)
                      \<and> run_hooks on_match MatchTarget cbs m sb = (Inr m', s1)
                      \<and> (m', world s1) = fold (hook_step on_match) cbs (m, world sb)
                      \<and> ((\<forall>cb \<in> set cbs. leavesAlone on_match cb) \<longrightarrow>
                            filter isHookCall (new_calls ?s s')
                              = map (\<lambda>cb. Hook (cb_id cb) (MatchTarget m)) cbs
                            \<and> world s1 = fold (\<lambda>cb w. snd (on_match cb m w)) cbs (world sb))))"
      by blast
    then show ?thesis by (intro exI)
  qed
next
  let ?s = "on_all n cbs s0"
  from assms have ph: "possibleHooks n ?s = cbs" by (rule possibleHooks_on_all)
  fix rs s'
  assume f: "findAll pf P (Inr n) params ?s = (Inr rs, s')"
  note t = findAll_after_try [OF assms(1) f]
  show "\<exists>sb sa. calledHooks (new_calls ?s s')
                   = concat (map (\<lambda>cb. replicate (length rs) (cb_id cb)) cbs)
               \<and> length (filter isHookCall (new_calls ?s s')) = length cbs * length rs
               \<and> filter isHookCall (new_calls ?s sb) = []
               \<and> world s' = world sa
               \<and> ((\<exists>xs xs'. isWindowQuery n \<and> length xs = length rs
                      \<and> run_hooks_on_all on_window WindowTarget cbs xs sb = (Inr xs', sa)
                      \<and> ((\<forall>cb \<in> set cbs. leavesAlone on_window cb) \<longrightarrow>
                            filter isHookCall (new_calls ?s s')
                              = concat (map (\<lambda>cb. map (Hook (cb_id cb)) (map WindowTarget xs)) cbs)))
                  \<or> (\<exists>ms ms'. (isImage n \<or> isTextQuery n) \<and> length ms = length rs
                      \<and> run_hooks_on_all on_match MatchTarget cbs ms sb = (Inr ms', sa)
                      \<and> ((\<forall>cb \<in> set cbs. leavesAlone on_match cb) \<longrightarrow>
                            filter isHookCall (new_calls ?s s')
                              = concat (map (\<lambda>cb. map (Hook (cb_id cb)) (map MatchTarget ms)) cbs))))"
  proof (cases "isWindowQuery n")
    case True
    from findAll_try_window_ok [OF True t] ph obtain hs sb xs' where
      l: "run_hooks_on_all on_window WindowTarget cbs
             (map (\<lambda>handle. \<lparr>windowHandle = handle\<rparr>) hs) sb = (Inr xs', s')" and
      c: "calls sb = calls ?s @ [WindowFindMatches n]" and
      r: "rs = map WindowResult xs'"
      by auto
    let ?xs = "map (\<lambda>handle. \<lparr>windowHandle = handle\<rparr>) hs"
    have p: "filter isHookCall [WindowFindMatches n] = []" by simp
    note seg = loop_segment_all [OF l c p refl]
    from seg r have n: "length ?xs = length rs" by simp
    from seg have la: "(\<forall>cb \<in> set cbs. leavesAlone on_window cb) \<longrightarrow>
                            filter isHookCall (new_calls ?s s')
                              = concat (map (\<lambda>cb. map (Hook (cb_id cb)) (map WindowTarget ?xs)) cbs)"
      by (elim conjE)
    from True n l la
    have R: "\<exists>xs xs'. isWindowQuery n \<and> length xs = length rs
                      \<and> run_hooks_on_all on_window WindowTarget cbs xs sb = (Inr xs', s')
                      \<and> ((\<forall>cb \<in> set cbs. leavesAlone on_window cb) \<longrightarrow>
                            filter isHookCall (new_calls ?s s')
                              = concat (map (\<lambda>cb. map (Hook (cb_id cb)) (map WindowTarget xs)) cbs))"
      by (intro exI conjI)
    from seg n R
    have "calledHooks (new_calls ?s s')
                   = concat (map (\<lambda>cb. replicate (length rs) (cb_id cb)) cbs)
               \<and> length (filter isHookCall (new_calls ?s s')) = length cbs * length rs
               \<and> filter isHookCall (new_calls ?s sb) = []
               \<and> world s' = world s'
               \<and> ((\<exists>xs xs'. isWindowQuery n \<and> length xs = length rs
                      \<and> run_hooks_on_all on_window WindowTarget cbs xs sb = (Inr xs', s')
                      \<and> ((\<forall>cb \<in> set cbs. leavesAlone on_window cb) \<longrightarrow>
                            filter isHookCall (new_calls ?s s')
                              = concat (map (\<lambda>cb. map (Hook (cb_id cb)) (map WindowTarget xs)) cbs)))
                  \<or> (\<exists>ms ms'. (isImage n \<or> isTextQuery n) \<and> length ms = length rs
                      \<and> run_hooks_on_all on_match MatchTarget cbs ms sb = (Inr ms', s')
                      \<and> ((\<forall>cb \<in> set cbs. leavesAlone on_match cb) \<longrightarrow>
                            filter isHookCall (new_calls ?s s')
                              = concat (map (\<lambda>cb. map (Hook (cb_id cb)) (map MatchTarget ms)) cbs))))"
      by simp
    then show ?thesis by (intro exI)
  next
    case False
    with assms(1) have ty: "isImage n \<or> isTextQuery n" by simp
    from findAll_try_region_ok [OF False t] ph obtain fp :: FindParameters and ms0 sb ms sa fc where
      l: "run_hooks_on_all on_match MatchTarget cbs ms0 sb = (Inr ms, sa)" and
      c: "calls sb = calls ?s @ [ScreenSize, GrabScreenRegion (searchRegion fp), fc]" and
      nh: "\<not> isHookCall fc" and
      d: "calls s' = calls sa" "world s' = world sa" and
      r: "rs = map RegionResult (map (resultRegion pf (searchRegion fp)) ms)"
      by auto
    from nh have p: "filter isHookCall [ScreenSize, GrabScreenRegion (searchRegion fp), fc] = []"
      by simp
    note seg = loop_segment_all [OF l c p d(1)]
    from seg r have n: "length ms0 = length rs" by simp
    from seg have la: "(\<forall>cb \<in> set cbs. leavesAlone on_match cb) \<longrightarrow>
                            filter isHookCall (new_calls ?s s')
                              = concat (map (\<lambda>cb. map (Hook (cb_id cb)) (map MatchTarget ms0)) cbs)"
      by (elim conjE)
    from ty n l la
    have R: "\<exists>ms ms'. (isImage n \<or> isTextQuery n) \<and> length ms = length rs
                      \<and> run_hooks_on_all on_match MatchTarget cbs ms sb = (Inr ms', sa)
                      \<and> ((\<forall>cb \<in> set cbs. leavesAlone on_match cb) \<longrightarrow>
                            filter isHookCall (new_calls ?s s')
                              = concat (map (\<lambda>cb. map (Hook (cb_id cb)) (map MatchTarget ms)) cbs))"
      by (intro exI conjI)
    from seg n R d(2)
    have "calledHooks (new_calls ?s s')
                   = concat (map (\<lambda>cb. replicate (length rs) (cb_id cb)) cbs)
               \<and> length (filter isHookCall (new_calls ?s s')) = length cbs * length rs
               \<and> filter isHookCall (new_calls ?s sb) = []
               \<and> world s' = world sa
               \<and> ((\<exists>xs xs'. isWindowQuery n \<and> length xs = length rs
                      \<and> run_hooks_on_all on_window WindowTarget cbs xs sb = (Inr xs', sa)
                      \<and> ((\<forall>cb \<in> set cbs. leavesAlone on_window cb) \<longrightarrow>
                            filter isHookCall (new_calls ?s s')
                              = concat (map (\<lambda>cb. map (Hook (cb_id cb)) (map WindowTarget xs)) cbs)))
                  \<or> (\<exists>ms ms'. (isImage n \<or> isTextQuery n) \<and> length ms = length rs
                      \<and> run_hooks_on_all on_match MatchTarget cbs ms sb = (Inr ms', sa)
                      \<and> ((\<forall>cb \<in> set cbs. leavesAlone on_match cb) \<longrightarrow>
                            filter isHookCall (new_calls ?s s')
                              = concat (map (\<lambda>cb. map (Hook (cb_id cb)) (map MatchTarget ms)) cbs))))"
      by simp
    then show ?thesis by (intro exI)
  qed
qed

text \<open>
  Three hooks that each append their number to the world and leave the match result
  alone: one match leaves \<open>[1, 2, 3]\<close>, two matches leave \<open>[1, 1, 2, 2, 3, 3]\<close> after
  six calls.
\<close>

theorem registered_hooks_run_once_in_order_witness:
  "(isImage mockNeedle \<or> isTextQuery mockNeedle \<or> isWindowQuery mockNeedle)
   \<and> findHooks initialState (ref mockNeedle) = None
   \<and> (\<exists>res s' t. find mockPlatform (mockRegistry [matchAt (region 50 100 150 200)])
            (Inr mockNeedle) None
            (on_all mockNeedle [mockHook 1, mockHook 2, mockHook 3] initialState) = (Inr res, s')
          \<and> calledHooks
               (new_calls (on_all mockNeedle [mockHook 1, mockHook 2, mockHook 3] initialState) s')
             = [1, 2, 3]
          \<and> filter isHookCall
               (new_calls (on_all mockNeedle [mockHook 1, mockHook 2, mockHook 3] initialState) s')
             = [Hook 1 t, Hook 2 t, Hook 3 t]
          \<and> world s' = [1, 2, 3])
   \<and> (\<exists>rs s'. findAll mockPlatform
            (mockRegistry [matchAt (region 50 100 150 200), matchAt (region 0 0 2 2)])
            (Inr mockNeedle) None
            (on_all mockNeedle [mockHook 1, mockHook 2, mockHook 3] initialState) = (Inr rs, s')
          \<and> length rs = 2
          \<and> calledHooks
               (new_calls (on_all mockNeedle [mockHook 1, mockHook 2, mockHook 3] initialState) s')
             = [1, 1, 2, 2, 3, 3]
          \<and> length (filter isHookCall
               (new_calls (on_all mockNeedle [mockHook 1, mockHook 2, mockHook 3] initialState) s'))
             = 3 * 2
          \<and> world s' = [1, 1, 2, 2, 3, 3])"
proof -
  let ?P = "mockRegistry [matchAt (region 50 100 150 200)]"
  let ?Q = "mockRegistry [matchAt (region 50 100 150 200), matchAt (region 0 0 2 2)]"
  let ?cbs = "[mockHook 1, mockHook 2, mockHook 3]"
  let ?s = "on_all mockNeedle ?cbs initialState"
  have ty: "isImage mockNeedle \<or> isTextQuery mockNeedle \<or> isWindowQuery mockNeedle"
    by (simp add: mockNeedle_typed)
  have nw: "\<not> isWindowQuery mockNeedle" by (simp add: mockNeedle_typed)
  have none: "findHooks initialState (ref mockNeedle) = None"
    by (simp add: initialState_fields)
  have la: "\<forall>cb \<in> set ?cbs. leavesAlone on_match cb"
    by (simp add: mockHook_leavesAlone)
  note th = registered_hooks_run_once_in_order
    [where n = mockNeedle and ?s0.0 = initialState and pf = mockPlatform and P = ?P
       and params = None and cbs = ?cbs, OF ty none]
  note th2 = registered_hooks_run_once_in_order
    [where n = mockNeedle and ?s0.0 = initialState and pf = mockPlatform and P = ?Q
       and params = None and cbs = ?cbs, OF ty none]
  obtain res s' where f: "find mockPlatform ?P (Inr mockNeedle) None ?s = (Inr res, s')"
    and w: "world s' = [1, 2, 3]"
    by (simp add: find_def find_try_def mock_eval del: on_all.simps)
  from th [THEN conjunct1, rule_format, OF f] nw la obtain m where
    c: "calledHooks (new_calls ?s s') = map cb_id ?cbs" and
    h: "filter isHookCall (new_calls ?s s') = map (\<lambda>cb. Hook (cb_id cb) (MatchTarget m)) ?cbs"
    by blast
  from c have c': "calledHooks (new_calls ?s s') = [1, 2, 3]"
    by (simp add: mockHook_def)
  from h have h': "filter isHookCall (new_calls ?s s')
      = [Hook 1 (MatchTarget m), Hook 2 (MatchTarget m), Hook 3 (MatchTarget m)]"
    by (simp add: mockHook_def)
  obtain rs s'' where g: "findAll mockPlatform ?Q (Inr mockNeedle) None ?s = (Inr rs, s'')"
    and l: "length rs = 2" and w2: "world s'' = [1, 1, 2, 2, 3, 3]"
    by (simp add: findAll_def findAll_try_def mock_eval del: on_all.simps)
  from th2 [THEN conjunct2, rule_format, OF g]
  have "calledHooks (new_calls ?s s'') = concat (map (\<lambda>cb. replicate (length rs) (cb_id cb)) ?cbs)
        \<and> length (filter isHookCall (new_calls ?s s'')) = length ?cbs * length rs"
    by blast
  with l have k: "calledHooks (new_calls ?s s'') = [1, 1, 2, 2, 3, 3]"
    and n: "length (filter isHookCall (new_calls ?s s'')) = 3 * 2"
    by (simp_all add: mockHook_def numeral_2_eq_2)
  from f c' h' w have A: "\<exists>res s' t. find mockPlatform ?P (Inr mockNeedle) None ?s = (Inr res, s')
          \<and> calledHooks (new_calls ?s s') = [1, 2, 3]
          \<and> filter isHookCall (new_calls ?s s') = [Hook 1 t, Hook 2 t, Hook 3 t]
          \<and> world s' = [1, 2, 3]"
    by (intro exI conjI)
  from g l k n w2 have B: "\<exists>rs s'. findAll mockPlatform ?Q (Inr mockNeedle) None ?s = (Inr rs, s')
          \<and> length rs = 2
          \<and> calledHooks (new_calls ?s s') = [1, 1, 2, 2, 3, 3]
          \<and> length (filter isHookCall (new_calls ?s s')) = 3 * 2
          \<and> world s' = [1, 1, 2, 2, 3, 3]"
    by (intro exI conjI)
  from ty none A B show ?thesis by (intro conjI)
qed

subsection \<open>Registration appends\<close>

text \<open>
  C7. After \<open>on(needle, cb1), ..., on(needle, cbk)\<close> the registry maps the needle to
  the callbacks it had before followed by \<open>cb1, ..., cbk\<close>, so to exactly
  \<open>[cb1, ..., cbk]\<close> when it had none; the entry of every other needle is as it was.
\<close>

theorem on_appends_in_registration_order:
  assumes "isImage n \<or> isTextQuery n \<or> isWindowQuery n" and "cbs \<noteq> []"
  shows "findHooks (on_all n cbs s) (ref n)
           = Some ((case findHooks s (ref n) of None \<Rightarrow> [] | Some hs \<Rightarrow> hs) @ cbs)
         \<and> (findHooks s (ref n) = None \<longrightarrow> findHooks (on_all n cbs s) (ref n) = Some cbs)
         \<and> (\<forall>r. r \<noteq> ref n \<longrightarrow> findHooks (on_all n cbs s) r = findHooks s r)"
  using assms by (simp add: on_all_findHooks)

text \<open>
  Three registrations on one needle, with a hook already registered on another object.
\<close>

theorem on_appends_in_registration_order_witness:
  "(isImage mockNeedle \<or> isTextQuery mockNeedle \<or> isWindowQuery mockNeedle)
   \<and> [mockHook 1, failingHook 2, mockHook 3] \<noteq> []
   \<and> findHooks initialState (ref mockNeedle) = None
   \<and> findHooks (on_all mockNeedle [mockHook 1, failingHook 2, mockHook 3] initialState)
        (ref mockNeedle) = Some [mockHook 1, failingHook 2, mockHook 3]
   \<and> ref mockTwin \<noteq> ref mockNeedle
   \<and> findHooks (on_all mockNeedle [mockHook 1, failingHook 2, mockHook 3]
          (on_all mockTwin [mockHook 4] initialState)) (ref mockTwin) = Some [mockHook 4]"
proof -
  let ?cbs = "[mockHook 1, failingHook 2, mockHook 3]"
  have ty: "isImage mockNeedle \<or> isTextQuery mockNeedle \<or> isWindowQuery mockNeedle"
    by (simp add: mockNeedle_typed)
  have ty2: "isImage mockTwin \<or> isTextQuery mockTwin \<or> isWindowQuery mockTwin"
    by (simp add: mockTwin_def)
  have ne: "?cbs \<noteq> []" by simp
  have none: "findHooks initialState (ref mockNeedle) = None"
    by (simp add: initialState_fields)
  have r: "ref mockTwin \<noteq> ref mockNeedle"
    by (simp add: mockTwin_def mockNeedle_def)
  have tw: "findHooks (on_all mockTwin [mockHook 4] initialState) (ref mockTwin) = Some [mockHook 4]"
    using ty2 by (simp add: on_all_findHooks initialState_fields del: on_all.simps)
  from on_appends_in_registration_order [OF ty ne, of initialState] none
  have a: "findHooks (on_all mockNeedle ?cbs initialState) (ref mockNeedle) = Some ?cbs"
    by blast
  from on_appends_in_registration_order [OF ty ne, of "on_all mockTwin [mockHook 4] initialState"] r tw
  have b: "findHooks (on_all mockNeedle ?cbs (on_all mockTwin [mockHook 4] initialState))
             (ref mockTwin) = Some [mockHook 4]"
    by metis
  from ty ne none a r b show ?thesis by (intro conjI)
qed

subsection \<open>Highlight returns its region\<close>

text \<open>
  C8. When the screen provider carries out the highlight, \<open>highlight\<close> of a region
  (given as it is, or as a pending value that resolves to it) resolves with that same
  region, after exactly one call of \<open>highlightScreenRegion\<close> with the region and the
  \<open>highlightDurationMs\<close> and \<open>highlightOpacity\<close> of the configuration, whatever the
  \<open>autoHighlight\<close> flag is.
\<close>

theorem highlight_returns_its_region:
  assumes "Screen_highlightScreenRegion P r (highlightDurationMs (config s))
             (highlightOpacity (config s)) (world s) = (Inr u, w')"
  shows "\<forall>flag. highlight P (Inr (IsRegion r)) (s\<lparr>config := (config s)\<lparr>autoHighlight := flag\<rparr>\<rparr>)
           = (Inr r, s\<lparr>config := (config s)\<lparr>autoHighlight := flag\<rparr>, world := w',
                       calls := calls s @ [HighlightScreenRegion r (highlightDurationMs (config s))
                                             (highlightOpacity (config s))]\<rparr>)"
  using assms by (simp add: highlight_def invoke_def)

text \<open>
  The region \<open>(10, 20, 30, 40)\<close> of the unit test, with the flag on and off.
\<close>

theorem highlight_returns_its_region_witness:
  "Screen_highlightScreenRegion (mockRegistry []) (region 10 20 30 40)
       (highlightDurationMs (config initialState)) (highlightOpacity (config initialState))
       (world initialState) = (Inr (), [])
   \<and> fst (highlight (mockRegistry []) (Inr (IsRegion (region 10 20 30 40)))
            (initialState\<lparr>config := (config initialState)\<lparr>autoHighlight := True\<rparr>\<rparr>))
       = Inr (region 10 20 30 40)
   \<and> fst (highlight (mockRegistry []) (Inr (IsRegion (region 10 20 30 40)))
            (initialState\<lparr>config := (config initialState)\<lparr>autoHighlight := False\<rparr>\<rparr>))
       = Inr (region 10 20 30 40)
   \<and> calls (snd (highlight (mockRegistry []) (Inr (IsRegion (region 10 20 30 40)))
            (initialState\<lparr>config := (config initialState)\<lparr>autoHighlight := True\<rparr>\<rparr>)))
       = [HighlightScreenRegion (region 10 20 30 40) (Fin 500) (Fin 0.25)]"
proof -
  have h: "Screen_highlightScreenRegion (mockRegistry []) (region 10 20 30 40)
       (highlightDurationMs (config initialState)) (highlightOpacity (config initialState))
       (world initialState) = (Inr (), [])"
    by (simp add: mockRegistry_def initialState_def)
  from highlight_returns_its_region [OF h] h show ?thesis
    by (simp add: initialState_def defaultConfig_def)
qed

subsection \<open>Capture writes one image\<close>

lemma saveImage_ok:
  "saveImage pf P img fileName fmt dir pre post s = (Inr p, s') \<Longrightarrow>
     p = path_join pf dir (pre @ path_name pf fileName @ post @ ''.'' @ extension fmt)
     \<and> ImageWriter_store P img p (world s) = (Inr (), world s')
     \<and> calls s' = calls s @ [Store img p]"
  by (auto simp: saveImage_def generateOutputPath_def Let_def invoke_def
      split: prod.splits sum.splits)

text \<open>
  C9, as the spec and the tests have it. A successful \<open>capture\<close> or
  \<open>captureRegion\<close> grabs the screen, or the region, and then calls the image writer's
  \<open>store\<close> exactly once, with the grabbed image and the path that it then returns:
  the writer has run on the world that the grab left, it has resolved, and the world it
  left is the world after the call. The path is
  \<open>join(path, {prefix}{basename}{postfix}.{format})\<close>, where the base name is the file
  name without its extension. With an empty prefix and postfix, and a file name that
  carries the extension of the format, this is \<open>join(path, fileName)\<close>.
  \<open>generateOutputPath\<close> is not among the sources: the path is that of the spec.
\<close>

theorem capture_stores_once_at_returned_path:
  "(\<forall>p s'. capture pf P fileName fileFormat filePath fileNamePrefix fileNamePostfix s = (Inr p, s') \<longrightarrow>
      (\<exists>img sg. invoke GrabScreen (Screen_grabScreen P) s = (Inr (IsImage img), sg)
          \<and> ImageWriter_store P img p (world sg) = (Inr (), world s')
          \<and> new_calls s s' = [GrabScreen, Store img p])
      \<and> length (filter isStoreCall (new_calls s s')) = 1
      \<and> p = path_join pf (withDefault (process_cwd pf) filePath)
             (withDefault [] fileNamePrefix @ path_name pf fileName
              @ withDefault [] fileNamePostfix @ ''.'' @ extension (withDefault PNG fileFormat))
      \<and> (withDefault [] fileNamePrefix = [] \<and> withDefault [] fileNamePostfix = []
           \<and> path_name pf fileName @ ''.'' @ extension (withDefault PNG fileFormat) = fileName \<longrightarrow>
            p = path_join pf (withDefault (process_cwd pf) filePath) fileName))
   \<and> (\<forall>p s'. captureRegion pf P fileName regionToCapture fileFormat filePath fileNamePrefix
                 fileNamePostfix s = (Inr p, s') \<longrightarrow>
      (\<exists>r img sg. regionToCapture = Inr (IsRegion r)
          \<and> invoke (GrabScreenRegion r) (Screen_grabScreenRegion P r) s = (Inr (IsImage img), sg)
          \<and> ImageWriter_store P img p (world sg) = (Inr (), world s')
          \<and> new_calls s s' = [GrabScreenRegion r, Store img p])
      \<and> length (filter isStoreCall (new_calls s s')) = 1
      \<and> p = path_join pf (withDefault (process_cwd pf) filePath)
             (withDefault [] fileNamePrefix @ path_name pf fileName
              @ withDefault [] fileNamePostfix @ ''.'' @ extension (withDefault PNG fileFormat))
      \<and> (withDefault [] fileNamePrefix = [] \<and> withDefault [] fileNamePostfix = []
           \<and> path_name pf fileName @ ''.'' @ extension (withDefault PNG fileFormat) = fileName \<longrightarrow>
            p = path_join pf (withDefault (process_cwd pf) filePath) fileName))"
proof (intro conjI allI impI)
  fix p s'
  assume c: "capture pf P fileName fileFormat filePath fileNamePrefix fileNamePostfix s = (Inr p, s')"
  then have "\<exists>img sg. invoke GrabScreen (Screen_grabScreen P) s = (Inr (IsImage img), sg)
      \<and> saveImage pf P img fileName (withDefault PNG fileFormat) (withDefault (process_cwd pf) filePath)
          (withDefault [] fileNamePrefix) (withDefault [] fileNamePostfix) sg = (Inr p, s')"
    by (auto simp: capture_def split: prod.splits sum.splits grabbed.splits)
  then obtain img sg where
    g: "invoke GrabScreen (Screen_grabScreen P) s = (Inr (IsImage img), sg)" and
    v: "saveImage pf P img fileName (withDefault PNG fileFormat) (withDefault (process_cwd pf) filePath)
          (withDefault [] fileNamePrefix) (withDefault [] fileNamePostfix) sg = (Inr p, s')"
    by (elim exE conjE)
  from invoke_fields [OF g] saveImage_ok [OF v]
  have n: "new_calls s s' = [GrabScreen, Store img p]"
    by (simp add: new_calls_def)
  from saveImage_ok [OF v] have st: "ImageWriter_store P img p (world sg) = (Inr (), world s')"
    by (elim conjE)
  from g st n
  have "invoke GrabScreen (Screen_grabScreen P) s = (Inr (IsImage img), sg)
          \<and> ImageWriter_store P img p (world sg) = (Inr (), world s')
          \<and> new_calls s s' = [GrabScreen, Store img p]"
    by (intro conjI)
  then show "\<exists>img sg. invoke GrabScreen (Screen_grabScreen P) s = (Inr (IsImage img), sg)
          \<and> ImageWriter_store P img p (world sg) = (Inr (), world s')
          \<and> new_calls s s' = [GrabScreen, Store img p]"
    by (intro exI)
  from n show "length (filter isStoreCall (new_calls s s')) = 1" by simp
  from saveImage_ok [OF v]
  show q: "p = path_join pf (withDefault (process_cwd pf) filePath)
             (withDefault [] fileNamePrefix @ path_name pf fileName
              @ withDefault [] fileNamePostfix @ ''.'' @ extension (withDefault PNG fileFormat))"
    by simp
  assume "withDefault [] fileNamePrefix = [] \<and> withDefault [] fileNamePostfix = []
           \<and> path_name pf fileName @ ''.'' @ extension (withDefault PNG fileFormat) = fileName"
  with q show "p = path_join pf (withDefault (process_cwd pf) filePath) fileName"
    by simp
next
  fix p s'
  assume c: "captureRegion pf P fileName regionToCapture fileFormat filePath fileNamePrefix
                 fileNamePostfix s = (Inr p, s')"
  then have "\<exists>r img sg. regionToCapture = Inr (IsRegion r)
      \<and> invoke (GrabScreenRegion r) (Screen_grabScreenRegion P r) s = (Inr (IsImage img), sg)
      \<and> saveImage pf P img fileName (withDefault PNG fileFormat) (withDefault (process_cwd pf) filePath)
          (withDefault [] fileNamePrefix) (withDefault [] fileNamePostfix) sg = (Inr p, s')"
    by (auto simp: captureRegion_def split: prod.splits sum.splits grabbed.splits region_arg.splits)
  then obtain r img sg where
    a: "regionToCapture = Inr (IsRegion r)" and
    g: "invoke (GrabScreenRegion r) (Screen_grabScreenRegion P r) s = (Inr (IsImage img), sg)" and
    v: "saveImage pf P img fileName (withDefault PNG fileFormat) (withDefault (process_cwd pf) filePath)
          (withDefault [] fileNamePrefix) (withDefault [] fileNamePostfix) sg = (Inr p, s')"
    by (elim exE conjE)
  from invoke_fields [OF g] saveImage_ok [OF v]
  have n: "new_calls s s' = [GrabScreenRegion r, Store img p]"
    by (simp add: new_calls_def)
  from saveImage_ok [OF v] have st: "ImageWriter_store P img p (world sg) = (Inr (), world s')"
    by (elim conjE)
  from a g st n
  have "regionToCapture = Inr (IsRegion r)
          \<and> invoke (GrabScreenRegion r) (Screen_grabScreenRegion P r) s = (Inr (IsImage img), sg)
          \<and> ImageWriter_store P img p (world sg) = (Inr (), world s')
          \<and> new_calls s s' = [GrabScreenRegion r, Store img p]"
    by (intro conjI)
  then show "\<exists>r img sg. regionToCapture = Inr (IsRegion r)
          \<and> invoke (GrabScreenRegion r) (Screen_grabScreenRegion P r) s = (Inr (IsImage img), sg)
          \<and> ImageWriter_store P img p (world sg) = (Inr (), world s')
          \<and> new_calls s s' = [GrabScreenRegion r, Store img p]"
    by (intro exI)
  from n show "length (filter isStoreCall (new_calls s s')) = 1" by simp
  from saveImage_ok [OF v]
  show q: "p = path_join pf (withDefault (process_cwd pf) filePath)
             (withDefault [] fileNamePrefix @ path_name pf fileName
              @ withDefault [] fileNamePostfix @ ''.'' @ extension (withDefault PNG fileFormat))"
    by simp
  assume "withDefault [] fileNamePrefix = [] \<and> withDefault [] fileNamePostfix = []
           \<and> path_name pf fileName @ ''.'' @ extension (withDefault PNG fileFormat) = fileName"
  with q show "p = path_join pf (withDefault (process_cwd pf) filePath) fileName"
    by simp
qed

lemma mockName_foobar: "mockName ''foobar.png'' = ''foobar''" "mockName ''asdf'' = ''asdf''"
  by (simp_all add: mockName_def)

lemmas capture_eval = capture_def captureRegion_def saveImage_def generateOutputPath_def
  invoke_def mockRegistry_def mockPlatform_def mockName_foobar initialState_def Let_def

text \<open>
  C9 as stated fails. \<open>capture("foobar.png")\<close>, the call of the unit test, returns
  \<open>join(cwd(), "foobar.png")\<close>, and not that path followed by the extension of the
  format. And the capture of the end-to-end test, into the directory \<open>./\<close>, returns
  \<open>foo_asdf_bar.jpg\<close>, which \<open>join\<close> makes of the directory and the file name, and
  not the two with a slash between them.
\<close>

theorem capture_of_a_name_with_extension:
  "fst (capture mockPlatform (mockRegistry []) ''foobar.png'' None None None None initialState)
     = Inr (path_join mockPlatform (process_cwd mockPlatform) ''foobar.png'')
   \<and> fst (capture mockPlatform (mockRegistry []) ''foobar.png'' None None None None initialState)
     \<noteq> Inr (path_join mockPlatform (process_cwd mockPlatform) ''foobar.png'' @ ''.'' @ extension PNG)
   \<and> fst (capture mockPlatform (mockRegistry []) ''asdf'' (Some JPG) (Some ''./'') (Some ''foo_'')
            (Some ''_bar'') initialState)
     = Inr ''foo_asdf_bar.jpg''
   \<and> fst (capture mockPlatform (mockRegistry []) ''asdf'' (Some JPG) (Some ''./'') (Some ''foo_'')
            (Some ''_bar'') initialState)
     \<noteq> Inr (''./'' @ ''/'' @ ''foo_'' @ ''asdf'' @ ''_bar'' @ ''.'' @ extension JPG)
   \<and> fst (capture mockPlatform (mockRegistry []) ''asdf'' (Some JPG) (Some ''./'') (Some ''foo_'')
            (Some ''_bar'') initialState)
     \<noteq> Inr (''./'' @ ''foo_'' @ ''asdf'' @ ''_bar'' @ ''.'' @ extension JPG)"
  by (simp add: capture_eval)

text \<open>
  The capture of the unit test, \<open>capture("foobar.png")\<close> with the defaults, and a
  capture of a region with a format, a directory, a prefix and a postfix.
\<close>

theorem capture_stores_once_at_returned_path_witness:
  "capture mockPlatform (mockRegistry []) ''foobar.png'' None None None None initialState
     = (Inr ''/home/user/foobar.png'',
        initialState\<lparr>world := [0], calls := [GrabScreen, Store mockGrab ''/home/user/foobar.png'']\<rparr>)
   \<and> withDefault [] None = ([] :: string)
   \<and> path_name mockPlatform ''foobar.png'' @ ''.'' @ extension (withDefault PNG None) = ''foobar.png''
   \<and> ''/home/user/foobar.png'' = path_join mockPlatform (process_cwd mockPlatform) ''foobar.png''
   \<and> (\<exists>img (sg :: (nat list) state).
          ImageWriter_store (mockRegistry []) img ''/home/user/foobar.png'' (world sg) = (Inr (), [0])
        \<and> new_calls initialState
            (initialState\<lparr>world := [0], calls := [GrabScreen, Store mockGrab ''/home/user/foobar.png'']\<rparr>)
          = [GrabScreen, Store img ''/home/user/foobar.png''])
   \<and> captureRegion mockPlatform (mockRegistry []) ''asdf'' (Inr (IsRegion (region 9 42 3 10)))
       (Some JPG) (Some ''/tmp/shots'') (Some ''foo_'') (Some ''_bar'') initialState
     = (Inr ''/tmp/shots/foo_asdf_bar.jpg'',
        initialState\<lparr>world := [0], calls := [GrabScreenRegion (region 9 42 3 10),
                                                Store mockGrab ''/tmp/shots/foo_asdf_bar.jpg'']\<rparr>)
   \<and> length (filter isStoreCall (new_calls initialState
         (initialState\<lparr>world := [0], calls := [GrabScreenRegion (region 9 42 3 10),
                                                 Store mockGrab ''/tmp/shots/foo_asdf_bar.jpg'']\<rparr>))) = 1"
proof -
  let ?s1 = "initialState\<lparr>world := [0], calls := [GrabScreen, Store mockGrab ''/home/user/foobar.png'']\<rparr>"
  let ?s2 = "initialState\<lparr>world := [0], calls := [GrabScreenRegion (region 9 42 3 10),
                                                Store mockGrab ''/tmp/shots/foo_asdf_bar.jpg'']\<rparr>"
  have a: "capture mockPlatform (mockRegistry []) ''foobar.png'' None None None None initialState
             = (Inr ''/home/user/foobar.png'', ?s1)"
    by (simp add: capture_eval)
  have b: "captureRegion mockPlatform (mockRegistry []) ''asdf'' (Inr (IsRegion (region 9 42 3 10)))
       (Some JPG) (Some ''/tmp/shots'') (Some ''foo_'') (Some ''_bar'') initialState
     = (Inr ''/tmp/shots/foo_asdf_bar.jpg'', ?s2)"
    by (simp add: capture_eval)
  have d: "withDefault [] None = ([] :: string)" by simp
  have e: "path_name mockPlatform ''foobar.png'' @ ''.'' @ extension (withDefault PNG None)
             = ''foobar.png''"
    by (simp add: mockPlatform_def mockName_foobar)
  have w1: "world ?s1 = [0]" by simp
  note th = capture_stores_once_at_returned_path
    [where pf = mockPlatform and P = "mockRegistry []" and fileName = "''foobar.png''"
       and fileFormat = None and filePath = None and fileNamePrefix = None
       and fileNamePostfix = None and s = initialState]
  note th1 = th [THEN conjunct1, rule_format, OF a]
  note th2 = capture_stores_once_at_returned_path
    [where pf = mockPlatform and P = "mockRegistry []" and fileName = "''asdf''"
       and regionToCapture = "Inr (IsRegion (region 9 42 3 10))"
       and fileFormat = "Some JPG" and filePath = "Some ''/tmp/shots''"
       and fileNamePrefix = "Some ''foo_''" and fileNamePostfix = "Some ''_bar''"
       and s = initialState, THEN conjunct2, rule_format, OF b]
  from th1 have ex: "\<exists>img sg. invoke GrabScreen (Screen_grabScreen (mockRegistry [])) initialState
            = (Inr (IsImage img), sg)
          \<and> ImageWriter_store (mockRegistry []) img ''/home/user/foobar.png'' (world sg)
            = (Inr (), world ?s1)
          \<and> new_calls initialState ?s1 = [GrabScreen, Store img ''/home/user/foobar.png'']"
    by (rule conjunct1)
  then have ex': "\<exists>img (sg :: (nat list) state).
            ImageWriter_store (mockRegistry []) img ''/home/user/foobar.png'' (world sg)
            = (Inr (), [0])
          \<and> new_calls initialState ?s1 = [GrabScreen, Store img ''/home/user/foobar.png'']"
    unfolding w1 by blast
  from th1 d e have j: "''/home/user/foobar.png''
      = path_join mockPlatform (withDefault (process_cwd mockPlatform) None) ''foobar.png''"
    by blast
  then have j': "''/home/user/foobar.png''
      = path_join mockPlatform (process_cwd mockPlatform) ''foobar.png''"
    by simp
  from th2 have k: "length (filter isStoreCall (new_calls initialState ?s2)) = 1"
    by blast
  from a d e j' ex' b k show ?thesis by (intro conjI)
qed

subsection \<open>Hooks belong to an object, not to its content\<close>

text \<open>
  C10. The registry is a \<open>Map\<close> whose keys are objects, so a lookup goes by reference.
  For two objects with equal content \<open>v\<close> and different references, where the second
  has no hooks of its own: after \<open>on\<close> of a callback on the first, \<open>find\<close> and
  \<open>findAll\<close> of the second call no hook at all, and give the result, the trace and the
  world they give without that registration.
\<close>

theorem hooks_are_keyed_by_object_identity:
  assumes "r1 \<noteq> r2" and "findHooks s r2 = None"
  shows "find pf P (Inr (Obj r2 v)) params (snd (on (Obj r1 v) cb s))
           = (case find pf P (Inr (Obj r2 v)) params s of
                (res, s') \<Rightarrow> (res, s'\<lparr>findHooks := findHooks (snd (on (Obj r1 v) cb s))\<rparr>))
         \<and> filter isHookCall (new_calls (snd (on (Obj r1 v) cb s))
              (snd (find pf P (Inr (Obj r2 v)) params (snd (on (Obj r1 v) cb s))))) = []
         \<and> findAll pf P (Inr (Obj r2 v)) params (snd (on (Obj r1 v) cb s))
           = (case findAll pf P (Inr (Obj r2 v)) params s of
                (res, s') \<Rightarrow> (res, s'\<lparr>findHooks := findHooks (snd (on (Obj r1 v) cb s))\<rparr>))
         \<and> filter isHookCall (new_calls (snd (on (Obj r1 v) cb s))
              (snd (findAll pf P (Inr (Obj r2 v)) params (snd (on (Obj r1 v) cb s))))) = []"
proof -
  let ?s1 = "snd (on (Obj r1 v) cb s)"
  let ?n2 = "Obj r2 v"
  from assms have none: "findHooks ?s1 (ref ?n2) = None"
    by (simp add: on_other_ref)
  from assms(2) have none0: "findHooks s (ref ?n2) = None" by simp
  have eq: "?s1 = s\<lparr>findHooks := findHooks ?s1\<rparr>" by (rule on_only_findHooks)
  have a: "find pf P (Inr ?n2) params ?s1
           = (case find pf P (Inr ?n2) params s of
                (res, s') \<Rightarrow> (res, s'\<lparr>findHooks := findHooks ?s1\<rparr>))"
    using find_frame [where fh = "findHooks ?s1" and s = s and n = ?n2 and P = P
        and params = params, OF none0 none] eq by simp
  have b: "findAll pf P (Inr ?n2) params ?s1
           = (case findAll pf P (Inr ?n2) params s of
                (res, s') \<Rightarrow> (res, s'\<lparr>findHooks := findHooks ?s1\<rparr>))"
    using findAll_frame [where fh = "findHooks ?s1" and s = s and n = ?n2 and P = P
        and params = params, OF none0 none] eq by simp
  have c: "filter isHookCall (new_calls ?s1 (snd (find pf P (Inr ?n2) params ?s1))) = []"
    by (rule find_without_hooks [OF none, of pf P params "fst (find pf P (Inr ?n2) params ?s1)"]) simp
  have d: "filter isHookCall (new_calls ?s1 (snd (findAll pf P (Inr ?n2) params ?s1))) = []"
    by (rule findAll_without_hooks [OF none, of pf P params "fst (findAll pf P (Inr ?n2) params ?s1)"]) simp
  from a c b d show ?thesis by (intro conjI)
qed

text \<open>
  A hook that always throws is registered on one image; the search for its twin, an
  object with the same fields, still succeeds and calls no hook.
\<close>

theorem hooks_are_keyed_by_object_identity_witness:
  "(1::nat) \<noteq> 2
   \<and> findHooks initialState 2 = None
   \<and> mockNeedle = Obj 1 (ImageNeedle needleImage) \<and> mockTwin = Obj 2 (ImageNeedle needleImage)
   \<and> findHooks (snd (on mockNeedle (failingHook 1) initialState)) 1 = Some [failingHook 1]
   \<and> fst (find mockPlatform (mockRegistry [matchAt (region 50 100 150 200)]) (Inr mockTwin) None
            (snd (on mockNeedle (failingHook 1) initialState)))
       = Inr (RegionResult (region 50 100 150 200))
   \<and> filter isHookCall (new_calls (snd (on mockNeedle (failingHook 1) initialState))
         (snd (find mockPlatform (mockRegistry [matchAt (region 50 100 150 200)]) (Inr mockTwin) None
            (snd (on mockNeedle (failingHook 1) initialState))))) = []"
proof -
  let ?P = "mockRegistry [matchAt (region 50 100 150 200)]"
  let ?s1 = "snd (on mockNeedle (failingHook 1) initialState)"
  have ne: "(1::nat) \<noteq> 2" by simp
  have none: "findHooks initialState 2 = None" by (simp add: initialState_fields)
  note th = hooks_are_keyed_by_object_identity [OF ne none, of mockPlatform ?P "ImageNeedle needleImage" None
      "failingHook 1"]
  have n1: "mockNeedle = Obj 1 (ImageNeedle needleImage)" by (simp add: mockNeedle_def)
  have n2: "mockTwin = Obj 2 (ImageNeedle needleImage)" by (simp add: mockTwin_def)
  have reg: "findHooks ?s1 1 = Some [failingHook 1]"
    by (simp add: on_def mockNeedle_def initialState_fields)
  have "fst (find mockPlatform ?P (Inr mockTwin) None initialState)
          = Inr (RegionResult (resultRegion mockPlatform mockScreen (matchAt (region 50 100 150 200))))"
    by (simp add: find_def find_try_def mock_getFindParameters_None mock_screen_valid
        mock_getMatchResult mockTwin_typed possibleHooks_def getHooksForInput_def
        initialState_fields)
  moreover have "resultRegion mockPlatform mockScreen (matchAt (region 50 100 150 200)) = region 50 100 150 200"
    by (simp add: resultRegion_def matchAt_def mockScreen_def region_def mockPlatform_def)
  ultimately have f0: "fst (find mockPlatform ?P (Inr mockTwin) None initialState)
          = Inr (RegionResult (region 50 100 150 200))"
    by simp
  note th' = th [folded mockNeedle_def mockTwin_def]
  from th' have "find mockPlatform ?P (Inr mockTwin) None ?s1
      = (case find mockPlatform ?P (Inr mockTwin) None initialState of
           (res, s') \<Rightarrow> (res, s'\<lparr>findHooks := findHooks ?s1\<rparr>))"
    by (rule conjunct1)
  then have "fst (find mockPlatform ?P (Inr mockTwin) None ?s1) = fst (find mockPlatform ?P (Inr mockTwin) None initialState)"
    by (simp add: split_beta)
  with f0 have f1: "fst (find mockPlatform ?P (Inr mockTwin) None ?s1) = Inr (RegionResult (region 50 100 150 200))"
    by simp
  from th' have h: "filter isHookCall (new_calls ?s1 (snd (find mockPlatform ?P (Inr mockTwin) None ?s1))) = []"
    by (rule conjunct1 [OF conjunct2])
  from ne none n1 n2 reg f1 h show ?thesis by (intro conjI)
qed

end
